theory Spec2Isabelle
  imports Main "HOL-Library.Sublist"
begin

section \<open>Python values and exceptions\<close>

text \<open>
  The program works on the values that \<^verbatim>\<open>json.loads\<close> returns and on a few request
  arguments. A \<^verbatim>\<open>str\<close> is a \<open>string\<close>; the characters of the source's literals
  that lie outside ASCII are written as their UTF-8 bytes. A \<^verbatim>\<open>dict\<close> is the list of
  its items in insertion order (the first binding of a key is the one that counts).
  Numbers are the integers: the fields the program reads as numbers are identifiers
  and epoch seconds.
\<close>

datatype json =
    JNull
  | JBool bool
  | JInt int
  | JStr string
  | JList "json list"
  | JObj "(string \<times> json) list"

text \<open>Every \<^verbatim>\<open>raise\<close> of the program and of the interpreter is a value.\<close>

datatype error =
    KeyError string
  | TypeError
  | AttributeError
  | IndexError
  | UnboundLocalError
  | HTTPError nat
  | External string

type_synonym 'a result = "error + 'a"

definition ebind :: "'a result \<Rightarrow> ('a \<Rightarrow> 'b result) \<Rightarrow> 'b result" where
  "ebind m f = (case m of Inl e \<Rightarrow> Inl e | Inr x \<Rightarrow> f x)"

text \<open>\<^verbatim>\<open>v[k]\<close> with a \<^verbatim>\<open>str\<close> key: only a dict has such keys.\<close>

fun subscript :: "json \<Rightarrow> string \<Rightarrow> json result" where
  "subscript (JObj kvs) k = (case map_of kvs k of None \<Rightarrow> Inl (KeyError k) | Some v \<Rightarrow> Inr v)"
| "subscript _ k = Inl TypeError"

text \<open>\<^verbatim>\<open>v.get(k)\<close>: a dict method, \<^verbatim>\<open>None\<close> for a missing key.\<close>

fun py_get :: "json \<Rightarrow> string \<Rightarrow> json result" where
  "py_get (JObj kvs) k = (case map_of kvs k of None \<Rightarrow> Inr JNull | Some v \<Rightarrow> Inr v)"
| "py_get _ k = Inl AttributeError"

text \<open>\<^verbatim>\<open>v == 'literal'\<close>: only a \<^verbatim>\<open>str\<close> equals a \<^verbatim>\<open>str\<close>.\<close>

definition py_eq_str :: "json \<Rightarrow> string \<Rightarrow> bool" where
  "py_eq_str v s = (v = JStr s)"

text \<open>\<^verbatim>\<open>v in [s1, s2, ...]\<close> for a list or tuple of \<^verbatim>\<open>str\<close> literals.\<close>

definition py_in_strs :: "json \<Rightarrow> string list \<Rightarrow> bool" where
  "py_in_strs v ss = list_ex (py_eq_str v) ss"

text \<open>Contiguous occurrence, \<^verbatim>\<open>a in b\<close> for two \<^verbatim>\<open>str\<close>.\<close>

fun substring :: "string \<Rightarrow> string \<Rightarrow> bool" where
  "substring a [] = (a = [])"
| "substring a (c # cs) = (prefix a (c # cs) \<or> substring a cs)"

text \<open>\<^verbatim>\<open>'k' in v\<close>: key of a dict, element of a list, substring of a \<^verbatim>\<open>str\<close>.\<close>

fun py_contains :: "json \<Rightarrow> string \<Rightarrow> bool result" where
  "py_contains (JObj kvs) k = Inr (k \<in> set (map fst kvs))"
| "py_contains (JList xs) k = Inr (JStr k \<in> set xs)"
| "py_contains (JStr s) k = Inr (substring k s)"
| "py_contains _ k = Inl TypeError"

text \<open>Truth value of a value, as \<^verbatim>\<open>if v:\<close> tests it.\<close>

fun truthy :: "json \<Rightarrow> bool" where
  "truthy JNull = False"
| "truthy (JBool b) = b"
| "truthy (JInt n) = (n \<noteq> 0)"
| "truthy (JStr s) = (s \<noteq> [])"
| "truthy (JList xs) = (xs \<noteq> [])"
| "truthy (JObj kvs) = (kvs \<noteq> [])"

section \<open>Body selection\<close>

text \<open>
  \<^verbatim>\<open>post_content(post, digest=False)\<close>: the four-way choice of the body field. Each
  field is read with \<^verbatim>\<open>post[...]\<close>, so a missing one raises \<^verbatim>\<open>KeyError\<close>.
\<close>

definition post_content :: "json \<Rightarrow> bool \<Rightarrow> json result" where
  "post_content post digest =
     ebind (subscript post ''type'') (\<lambda>ty.
       if py_eq_str ty ''question'' then subscript post ''title''
       else if digest then subscript post ''excerpt''
       else ebind (py_contains post ''content'') (\<lambda>has.
         if \<not> has then subscript post ''excerpt''
         else subscript post ''content''))"

section \<open>Strings\<close>

text \<open>
  \<^verbatim>\<open>s.replace(old, new)\<close>: every occurrence of \<open>old\<close>, left to right without
  overlap; an empty \<open>old\<close> matches before every character and at the end.
\<close>

function replace :: "string \<Rightarrow> string \<Rightarrow> string \<Rightarrow> string" where
  "replace [] old new = (if old = [] then new else [])"
| "replace (c # cs) old new =
     (if old = [] then new @ c # replace cs old new
      else if prefix old (c # cs) then new @ replace (drop (length old) (c # cs)) old new
      else c # replace cs old new)"
  by pat_completeness auto
termination
  by (relation "measure (\<lambda>(s, old, new). length s)") auto

definition endswith :: "string \<Rightarrow> string \<Rightarrow> bool" where
  "endswith s suf = (length suf \<le> length s \<and> drop (length s - length suf) s = suf)"

definition startswith :: "string \<Rightarrow> string \<Rightarrow> bool" where
  "startswith s p = prefix p s"

text \<open>Decimal digits of a number, as \<^verbatim>\<open>str(n)\<close> writes them.\<close>

function show_nat :: "nat \<Rightarrow> string" where
  "show_nat n =
     (if n < 10 then [''0123456789'' ! n]
      else show_nat (n div 10) @ [''0123456789'' ! (n mod 10)])"
  by pat_completeness auto
termination
  by (relation "measure id") auto

definition show_int :: "int \<Rightarrow> string" where
  "show_int i = (if i < 0 then CHR ''-'' # show_nat (nat (- i)) else show_nat (nat i))"

section \<open>Feed entries and the collaborators outside the sources\<close>

text \<open>A \<^verbatim>\<open>PyRSS2Gen.RSSItem\<close> and the channel around the items.\<close>

record item =
  title :: string
  link :: string
  guid :: string
  description :: string
  pubDate :: int
  author :: json

record rss2 =
  channel_title :: string
  channel_link :: string
  channel_description :: string
  items :: "item list"

text \<open>
  What the program calls and the sources do not hold: the transport
  (\<^verbatim>\<open>fetch_zhihu\<close>), the standard library (\<^verbatim>\<open>time\<close>, \<^verbatim>\<open>urljoin\<close>, \<^verbatim>\<open>quote\<close>,
  \<^verbatim>\<open>json\<close>, \<^verbatim>\<open>datetime\<close>, \<^verbatim>\<open>str\<close> of a list or dict), lxml, the HTML helpers
  \<^verbatim>\<open>tidy_content\<close> and \<^verbatim>\<open>proxify_pic\<close>, and the feed serialiser. They are parameters.
  The upstream may answer one URL differently each time, so \<open>fetch_zhihu\<close> also gets
  the position of the request in the run. \<open>'doc\<close> is lxml's parsed tree; the helpers
  that change a tree in place return the changed tree.
\<close>

record 'doc env =
  time :: int
  urljoin :: "string \<Rightarrow> json \<Rightarrow> string result"
  fetch_zhihu :: "nat \<Rightarrow> string \<Rightarrow> (string \<times> string) list \<Rightarrow> string result"
  json_loads :: "string \<Rightarrow> json result"
  quote_dumps :: "string \<Rightarrow> string"
  decode :: "string \<Rightarrow> string result"
  fromstring :: "string \<Rightarrow> 'doc result"
  xpath_text :: "'doc \<Rightarrow> string \<Rightarrow> string list"
  xpath_href :: "'doc \<Rightarrow> string \<Rightarrow> json list"
  tidy_content :: "'doc \<Rightarrow> 'doc result"
  proxify_pic :: "'doc \<Rightarrow> json \<Rightarrow> 'doc result"
  tostring :: "'doc \<Rightarrow> string"
  utcfromtimestamp :: "int \<Rightarrow> int result"
  repr :: "json \<Rightarrow> string"
  to_xml :: "rss2 \<Rightarrow> string result"

text \<open>\<^verbatim>\<open>'%s' % v\<close>: \<^verbatim>\<open>str(v)\<close>.\<close>

fun py_str :: "'doc env \<Rightarrow> json \<Rightarrow> string" where
  "py_str env (JStr s) = s"
| "py_str env (JInt i) = show_int i"
| "py_str env (JBool b) = (if b then ''True'' else ''False'')"
| "py_str env JNull = ''None''"
| "py_str env v = repr env v"

definition dq :: "string \<Rightarrow> string" where
  "dq s = CHR 0x22 # s @ [CHR 0x22]"

section \<open>ZhihuAPI\<close>

definition ACCEPT_VERBS :: "string list" where
  "ACCEPT_VERBS = [''MEMBER_CREATE_ARTICLE'', ''ANSWER_CREATE'']"

definition baseurl :: string where
  "baseurl = ''https://www.zhihu.com/api/v4/''"

definition user_agent :: string where
  "user_agent = ''Mozilla/5.0 (X11; Linux x86_64; rv:63.0) Gecko/20100101 Firefox/63.0''"

definition get_json :: "'doc env \<Rightarrow> nat \<Rightarrow> json \<Rightarrow> json result" where
  "get_json env n url =
     ebind (urljoin env baseurl url) (\<lambda>u.
     ebind (fetch_zhihu env n u
         [(''User-Agent'', user_agent),
          (''Authorization'', ''oauth c3cef7c66a1843f8b3a9e6a1e3160e20''),
          (''x-api-version'', ''3.0.40''),
          (''x-udid'', ''AMAiMrPqqQ2PTnOxAr5M71LCh-dIQ8kkYvw='')]) (\<lambda>body.
     json_loads env body))"

text \<open>\<^verbatim>\<open>urlencode(query)\<close> of the three fixed parameters.\<close>

definition query :: "'doc env \<Rightarrow> string" where
  "query env = ''desktop=True&after_id='' @ show_int (time env) @ ''&limit=7''"

text \<open>The first page is the second request of a run: the profile or topic page comes first.\<close>

definition activities :: "'doc env \<Rightarrow> string \<Rightarrow> json result" where
  "activities env name =
     get_json env 1 (JStr (''members/'' @ name @ ''/activities'' @ ''?'' @ query env))"

definition topic :: "'doc env \<Rightarrow> string \<Rightarrow> json \<Rightarrow> json result" where
  "topic env tid sortkey =
     (let url = (if py_eq_str sortkey ''hot'' then ''topics/'' @ tid @ ''/feeds/top_activity''
                 else if py_eq_str sortkey ''newest'' then ''topics/'' @ tid @ ''/feeds/timeline_activity''
                 else [])
      in get_json env 1 (JStr (url @ ''?'' @ query env)))"

text \<open>\<^verbatim>\<open>doc.xpath(path)[0]\<close>: \<^verbatim>\<open>IndexError\<close> when nothing matches.\<close>

definition first :: "'a list \<Rightarrow> 'a result" where
  "first xs = (case xs of [] \<Rightarrow> Inl IndexError | x # _ \<Rightarrow> Inr x)"

text \<open>The profile card's URL; \<open>quote_dumps\<close> is \<^verbatim>\<open>quote(json.dumps({'url_token': name}))\<close>.\<close>

definition card_url :: "'doc env \<Rightarrow> string \<Rightarrow> string" where
  "card_url env name =
     ''https://www.zhihu.com/node/MemberProfileCardV2?params='' @ quote_dumps env name"

definition card :: "'doc env \<Rightarrow> string \<Rightarrow> (string \<times> string \<times> string) result" where
  "card env name =
     (let url = card_url env name in
      ebind (fetch_zhihu env 0 url [(''User-Agent'', user_agent)]) (\<lambda>body.
        if body = [] then Inl (HTTPError 404)
        else
          ebind (decode env body) (\<lambda>html.
          ebind (fromstring env html) (\<lambda>doc.
          ebind (first (xpath_text env doc (''//span[@class='' @ dq ''name'' @ '']''))) (\<lambda>nm.
          ebind (first (xpath_href env doc (''//a[@class='' @ dq ''avatar-link'' @ '']''))) (\<lambda>href.
            let tagline = xpath_text env doc (''//div[@class='' @ dq ''tagline'' @ '']'');
                headline = (if tagline \<noteq> [] then hd tagline else [])
            in ebind (urljoin env ''https://www.zhihu.com/'' href) (\<lambda>u.
                 Inr (nm, headline, u))))))))"

definition desc_not_found :: string where
  "desc_not_found =
     [CHR 0xE6, CHR 0x9C, CHR 0xAA, CHR 0xE6, CHR 0x89, CHR 0xBE, CHR 0xE5, CHR 0x88, CHR 0xB0,
      CHR 0xE8, CHR 0xAF, CHR 0x9D, CHR 0xE9, CHR 0xA2, CHR 0x98, CHR 0xE6, CHR 0x8F, CHR 0x8F,
      CHR 0xE8, CHR 0xBF, CHR 0xB0]"

definition topic_info :: "'doc env \<Rightarrow> string \<Rightarrow> (string \<times> string \<times> string) result" where
  "topic_info env tid =
     ebind (urljoin env ''https://www.zhihu.com/topic/'' (JStr tid)) (\<lambda>url.
     ebind (fetch_zhihu env 0 url [(''User-Agent'', user_agent)]) (\<lambda>body.
       if body = [] then Inl (HTTPError 404)
       else
         ebind (decode env body) (\<lambda>html.
         ebind (fromstring env html) (\<lambda>doc.
           if xpath_text env doc (''//*[contains(@class, '' @ dq ''TopicMetaCard'' @ '')]'') \<noteq> [] then
             ebind (first (xpath_text env doc (''//div[@class='' @ dq ''TopicMetaCard-title'' @ '']''))) (\<lambda>nm.
             ebind (first (xpath_text env doc
                 (''//div[contains(@class, '' @ dq ''TopicMetaCard-description'' @ '')]''))) (\<lambda>desc.
               Inr (nm, desc, url)))
           else if xpath_text env doc (''//*[contains(@class, '' @ dq ''TopicCard'' @ '')]'') \<noteq> [] then
             ebind (first (xpath_text env doc (''//h1[@class='' @ dq ''TopicCard-titleText'' @ '']''))) (\<lambda>nm.
             ebind (first (xpath_text env doc (''//div[@class='' @ dq ''TopicCard-ztext'' @ '']''))) (\<lambda>desc.
               Inr (nm, desc, url)))
           else Inr (tid, desc_not_found, url)))))"

section \<open>Pagination\<close>

text \<open>
  \<^verbatim>\<open>for x in v\<close>: the elements of a list, the keys of a dict, the characters of a
  \<^verbatim>\<open>str\<close> (a character is a lead byte with the continuation bytes after it); nothing
  else of these values can be iterated.
\<close>

definition is_cont :: "char \<Rightarrow> bool" where
  "is_cont c = (128 \<le> (of_char c :: nat) \<and> (of_char c :: nat) < 192)"

function code_points :: "string \<Rightarrow> string list" where
  "code_points [] = []"
| "code_points (c # cs) = (c # takeWhile is_cont cs) # code_points (dropWhile is_cont cs)"
  by pat_completeness auto
termination
  by (relation "measure length") (auto simp: length_dropWhile_le less_Suc_eq_le)

fun py_iter :: "json \<Rightarrow> json list result" where
  "py_iter (JList xs) = Inr xs"
| "py_iter (JObj kvs) = Inr (map (\<lambda>kv. JStr (fst kv)) kvs)"
| "py_iter (JStr s) = Inr (map JStr (code_points s))"
| "py_iter _ = Inl TypeError"

text \<open>\<^verbatim>\<open>[x['target'] for x in xs if x['verb'] in ACCEPT_VERBS]\<close>\<close>

fun accepted_targets :: "json list \<Rightarrow> json list result" where
  "accepted_targets [] = Inr []"
| "accepted_targets (x # xs) =
     ebind (subscript x ''verb'') (\<lambda>verb.
       if py_in_strs verb ACCEPT_VERBS then
         ebind (subscript x ''target'') (\<lambda>t.
         ebind (accepted_targets xs) (\<lambda>ts. Inr (t # ts)))
       else accepted_targets xs)"

text \<open>\<^verbatim>\<open>[x['target'] for x in xs]\<close>\<close>

fun all_targets :: "json list \<Rightarrow> json list result" where
  "all_targets [] = Inr []"
| "all_targets (x # xs) =
     ebind (subscript x ''target'') (\<lambda>t.
     ebind (all_targets xs) (\<lambda>ts. Inr (t # ts)))"

text \<open>The accepted items of one page of a user stream, and the items of one page of a topic stream.\<close>

definition activity_posts :: "json \<Rightarrow> json list result" where
  "activity_posts data = ebind (subscript data ''data'') (\<lambda>d. ebind (py_iter d) accepted_targets)"

definition topic_posts :: "json \<Rightarrow> json list result" where
  "topic_posts data = ebind (subscript data ''data'') (\<lambda>d. ebind (py_iter d) all_targets)"

text \<open>
  The \<^verbatim>\<open>while\<close> loop of \<^verbatim>\<open>activities2rss\<close>, on its three variables. The request for
  the page after \<open>page\<close> is request \<open>2 + page\<close> of the run.
\<close>

function activities_loop ::
  "'doc env \<Rightarrow> json list \<Rightarrow> nat \<Rightarrow> json \<Rightarrow> (json list \<times> nat \<times> json) result" where
  "activities_loop env posts page data =
     (if length posts < 20 \<and> page < 3 then
        ebind (subscript data ''paging'') (\<lambda>paging.
        ebind (subscript paging ''is_end'') (\<lambda>is_end.
          if truthy is_end then Inr (posts, page, data)
          else
            ebind (subscript paging ''next'') (\<lambda>nxt.
            ebind (get_json env (2 + page) nxt) (\<lambda>data'.
            ebind (activity_posts data') (\<lambda>new.
              activities_loop env (posts @ new) (page + 1) data')))))
      else Inr (posts, page, data))"
  by pat_completeness auto
termination
  by (relation "measure (\<lambda>(env, posts, page, data). 3 - page)") auto

text \<open>Lines 145 to 160 of \<^verbatim>\<open>activities2rss\<close>: the first page, then the loop.\<close>

definition activities_walk :: "'doc env \<Rightarrow> string \<Rightarrow> (json list \<times> nat \<times> json) result" where
  "activities_walk env name =
     ebind (activities env name) (\<lambda>data.
     ebind (activity_posts data) (\<lambda>posts.
       activities_loop env posts 0 data))"

text \<open>
  \<^verbatim>\<open>next_url.startswith('http://')\<close> and the rewrite to \<^verbatim>\<open>https://\<close>: a method of \<^verbatim>\<open>str\<close>
  only.
\<close>

fun https_url :: "json \<Rightarrow> json result" where
  "https_url (JStr s) =
     Inr (JStr (if startswith s ''http://'' then ''https://'' @ drop (length ''http://'') s else s))"
| "https_url _ = Inl AttributeError"

function topic_loop ::
  "'doc env \<Rightarrow> json list \<Rightarrow> nat \<Rightarrow> json \<Rightarrow> (json list \<times> nat \<times> json) result" where
  "topic_loop env posts page data =
     (if length posts < 20 \<and> page < 3 then
        ebind (subscript data ''paging'') (\<lambda>paging.
        ebind (subscript paging ''is_end'') (\<lambda>is_end.
          if truthy is_end then Inr (posts, page, data)
          else
            ebind (subscript paging ''next'') (\<lambda>nxt.
            ebind (https_url nxt) (\<lambda>next_url.
            ebind (get_json env (2 + page) next_url) (\<lambda>data'.
            ebind (topic_posts data') (\<lambda>new.
              topic_loop env (posts @ new) (page + 1) data'))))))
      else Inr (posts, page, data))"
  by pat_completeness auto
termination
  by (relation "measure (\<lambda>(env, posts, page, data). 3 - page)") auto

definition topic_walk :: "'doc env \<Rightarrow> string \<Rightarrow> json \<Rightarrow> (json list \<times> nat \<times> json) result" where
  "topic_walk env tid sortkey =
     ebind (topic env tid sortkey) (\<lambda>data.
     ebind (topic_posts data) (\<lambda>posts.
       topic_loop env posts 0 data))"

section \<open>post2rss\<close>

text \<open>
  \<^verbatim>\<open>extra_types\<close> as the two callers pass it: the empty tuple by default, and
  \<^verbatim>\<open>('question')\<close>, which is the \<^verbatim>\<open>str\<close> itself, so that \<^verbatim>\<open>in\<close> looks for a substring.
\<close>

datatype extra_types = Tuple "string list" | Str string

fun in_extra_types :: "string \<Rightarrow> extra_types \<Rightarrow> bool" where
  "in_extra_types k (Tuple ts) = (k \<in> set ts)"
| "in_extra_types k (Str s) = substring k s"

definition answer_prefix :: string where
  "answer_prefix = [CHR ''['', CHR 0xE5, CHR 0x9B, CHR 0x9E, CHR 0xE7, CHR 0xAD, CHR 0x94, CHR '']'', CHR '' '']"

definition article_prefix :: string where
  "article_prefix = [CHR ''['', CHR 0xE6, CHR 0x96, CHR 0x87, CHR 0xE7, CHR 0xAB, CHR 0xA0, CHR '']'', CHR '' '']"

definition question_prefix :: string where
  "question_prefix = [CHR ''['', CHR 0xE9, CHR 0x97, CHR 0xAE, CHR 0xE9, CHR 0xA2, CHR 0x98, CHR '']'', CHR '' '']"

text \<open>
  Lines 198 to 222: title, link, timestamp and author by kind, or nothing. The first
  component is what \<^verbatim>\<open>logger.warn\<close> was given.
\<close>

definition post2rss_dispatch ::
  "'doc env \<Rightarrow> json \<Rightarrow> extra_types \<Rightarrow> string list \<times> (string \<times> string \<times> json \<times> json) option result" where
  "post2rss_dispatch env post extra =
     (case subscript post ''type'' of
        Inl e \<Rightarrow> ([], Inl e)
      | Inr ty \<Rightarrow>
          if py_eq_str ty ''answer'' then
            ([], ebind (subscript post ''question'') (\<lambda>q.
                 ebind (subscript q ''title'') (\<lambda>qtitle.
                 ebind (subscript q ''id'') (\<lambda>qid.
                 ebind (subscript post ''id'') (\<lambda>pid.
                 ebind (subscript post ''created_time'') (\<lambda>t_c.
                 ebind (subscript post ''author'') (\<lambda>a.
                 ebind (subscript a ''name'') (\<lambda>name.
                   Inr (Some (answer_prefix @ py_str env qtitle,
                              ''https://www.zhihu.com/question/'' @ py_str env qid
                                @ ''/answer/'' @ py_str env pid,
                              t_c, name))))))))))
          else if py_eq_str ty ''article'' then
            ([], ebind (subscript post ''title'') (\<lambda>ptitle.
                 ebind (subscript post ''id'') (\<lambda>pid.
                 ebind (subscript post ''created'') (\<lambda>t_c.
                 ebind (subscript post ''author'') (\<lambda>a.
                 ebind (subscript a ''name'') (\<lambda>name.
                   Inr (Some (article_prefix @ py_str env ptitle,
                              ''https://zhuanlan.zhihu.com/p/'' @ py_str env pid,
                              t_c, name))))))))
          else if in_extra_types ''question'' extra \<and> py_eq_str ty ''question'' then
            ([], ebind (subscript post ''title'') (\<lambda>ptitle.
                 ebind (subscript post ''id'') (\<lambda>pid.
                 ebind (subscript post ''created'') (\<lambda>t_c.
                   Inr (Some (question_prefix @ py_str env ptitle,
                              ''https://www.zhihu.com/question/'' @ py_str env pid,
                              t_c, JNull))))))
          else if py_in_strs ty [''roundtable'', ''live'', ''column''] then ([], Inr None)
          else ([''unknown type: '' @ py_str env ty], Inr None))"

text \<open>Lines 225 and 226: the two replacements around code elements.\<close>

definition wrap_code :: "string \<Rightarrow> string" where
  "wrap_code content =
     replace (replace content ''<code '' ''<pre><code '') ''</code>'' ''</code></pre>''"

text \<open>The same on a value: only a \<^verbatim>\<open>str\<close> has the method \<^verbatim>\<open>replace\<close>.\<close>

fun py_wrap_code :: "json \<Rightarrow> string result" where
  "py_wrap_code (JStr s) = Inr (wrap_code s)"
| "py_wrap_code _ = Inl AttributeError"

text \<open>Lines 232 to 236: parse, tidy, rewrite pictures when \<^verbatim>\<open>pic\<close> is given, serialise.\<close>

definition sanitize :: "'doc env \<Rightarrow> json \<Rightarrow> string \<Rightarrow> string result" where
  "sanitize env pic content =
     ebind (fromstring env content) (\<lambda>doc.
     ebind (tidy_content env doc) (\<lambda>doc1.
     ebind (if truthy pic then proxify_pic env doc1 pic else Inr doc1) (\<lambda>doc2.
       Inr (tostring env doc2))))"

text \<open>\<^verbatim>\<open>utcfromtimestamp\<close> takes a number; a \<^verbatim>\<open>bool\<close> is one.\<close>

fun py_timestamp :: "json \<Rightarrow> int result" where
  "py_timestamp (JInt n) = Inr n"
| "py_timestamp (JBool b) = Inr (if b then 1 else 0)"
| "py_timestamp _ = Inl TypeError"

text \<open>
  Lines 232 to 248: the body is sanitised, the timestamp becomes the date, and the
  backspace character is taken out of title and body.
\<close>

definition render ::
  "'doc env \<Rightarrow> json \<Rightarrow> string \<Rightarrow> string \<Rightarrow> json \<Rightarrow> json \<Rightarrow> string \<Rightarrow> item option result" where
  "render env pic title0 url t_c author0 content =
     ebind (sanitize env pic content) (\<lambda>c4.
     ebind (py_timestamp t_c) (\<lambda>ts.
     ebind (utcfromtimestamp env ts) (\<lambda>pub_date.
       Inr (Some \<lparr>title = replace title0 [CHR 0x08] [],
                  link = url,
                  guid = url,
                  description = replace c4 [CHR 0x08] [],
                  pubDate = pub_date,
                  author = author0\<rparr>))))"

definition post2rss ::
  "'doc env \<Rightarrow> json \<Rightarrow> bool \<Rightarrow> json \<Rightarrow> extra_types \<Rightarrow> string list \<times> item option result" where
  "post2rss env post digest pic extra =
     (case post2rss_dispatch env post extra of
        (log, Inl e) \<Rightarrow> (log, Inl e)
      | (log, Inr None) \<Rightarrow> (log, Inr None)
      | (log, Inr (Some (title0, url, t_c, author0))) \<Rightarrow>
          (log,
           ebind (post_content post digest) (\<lambda>content.
           ebind (py_wrap_code content) (\<lambda>c2.
           ebind (if c2 = [] then
                    ebind (py_get post ''thumbnail'') (\<lambda>thumbnail.
                      Inr (''<img src='' @ dq (py_str env thumbnail) @ ''>''))
                  else Inr c2) (\<lambda>c3.
             render env pic title0 url t_c author0 c3)))))"

section \<open>Feed assembly and the two streams\<close>

text \<open>
  Modelled from the spec: \<^verbatim>\<open>base.data2rss\<close> is not among the sources. The spec's feed
  assembler keeps the entries in the order of the posts, leaves out a post that
  normalised to nothing, and skips a post with a missing required field (the
  \<^verbatim>\<open>KeyError\<close> of \<^verbatim>\<open>post2rss\<close>) and goes on with the rest; any other exception ends
  the request. The warnings of the posts are collected in order.
\<close>

fun data2rss_items ::
  "(json \<Rightarrow> string list \<times> item option result) \<Rightarrow> json list \<Rightarrow> string list \<times> item list result" where
  "data2rss_items transform [] = ([], Inr [])"
| "data2rss_items transform (x # xs) =
     (case transform x of
        (log, Inl (KeyError k)) \<Rightarrow>
          (case data2rss_items transform xs of (log', r) \<Rightarrow> (log @ log', r))
      | (log, Inl e) \<Rightarrow> (log, Inl e)
      | (log, Inr None) \<Rightarrow>
          (case data2rss_items transform xs of (log', r) \<Rightarrow> (log @ log', r))
      | (log, Inr (Some it)) \<Rightarrow>
          (case data2rss_items transform xs of
             (log', r) \<Rightarrow> (log @ log', ebind r (\<lambda>its. Inr (it # its)))))"

definition data2rss ::
  "string \<Rightarrow> string \<times> string \<Rightarrow> json list \<Rightarrow> (json \<Rightarrow> string list \<times> item option result)
     \<Rightarrow> string list \<times> rss2 result" where
  "data2rss url info posts transform =
     (case data2rss_items transform posts of
        (log, r) \<Rightarrow>
          (log, ebind r (\<lambda>its.
             Inr \<lparr>channel_title = fst info, channel_link = url,
                  channel_description = snd info, items = its\<rparr>)))"

definition activities_suffix :: string where
  "activities_suffix =
     [CHR '' '', CHR ''-'', CHR '' '', CHR 0xE7, CHR 0x9F, CHR 0xA5, CHR 0xE4, CHR 0xB9, CHR 0x8E,
      CHR 0xE5, CHR 0x8A, CHR 0xA8, CHR 0xE6, CHR 0x80, CHR 0x81]"

definition topic_hot_suffix :: string where
  "topic_hot_suffix =
     [CHR '' '', CHR ''-'', CHR '' '', CHR 0xE7, CHR 0x9F, CHR 0xA5, CHR 0xE4, CHR 0xB9, CHR 0x8E,
      CHR 0xE8, CHR 0xAF, CHR 0x9D, CHR 0xE9, CHR 0xA2, CHR 0x98, CHR '' '', CHR ''-'', CHR '' '',
      CHR 0xE7, CHR 0x83, CHR 0xAD, CHR 0xE9, CHR 0x97, CHR 0xA8, CHR 0xE6, CHR 0x8E, CHR 0x92,
      CHR 0xE5, CHR 0xBA, CHR 0x8F, CHR '' '']"

definition topic_newest_suffix :: string where
  "topic_newest_suffix =
     [CHR '' '', CHR ''-'', CHR '' '', CHR 0xE7, CHR 0x9F, CHR 0xA5, CHR 0xE4, CHR 0xB9, CHR 0x8E,
      CHR 0xE8, CHR 0xAF, CHR 0x9D, CHR 0xE9, CHR 0xA2, CHR 0x98, CHR '' '', CHR ''-'', CHR '' '',
      CHR 0xE6, CHR 0x97, CHR 0xB6, CHR 0xE9, CHR 0x97, CHR 0xB4, CHR 0xE6, CHR 0x8E, CHR 0x92,
      CHR 0xE5, CHR 0xBA, CHR 0x8F, CHR '' '']"

text \<open>The result of a stream is the warnings logged and the XML, or the exception.\<close>

definition activities2rss :: "'doc env \<Rightarrow> string \<Rightarrow> bool \<Rightarrow> json \<Rightarrow> string list \<times> string result" where
  "activities2rss env name digest pic =
     (case card env name of
        Inl e \<Rightarrow> ([], Inl e)
      | Inr (nm, headline, url) \<Rightarrow>
          (case activities_walk env name of
             Inl e \<Rightarrow> ([], Inl e)
           | Inr (posts, page, data) \<Rightarrow>
               (case data2rss url (nm @ activities_suffix, headline) posts
                       (\<lambda>post. post2rss env post digest pic (Tuple [])) of
                  (log, rss) \<Rightarrow> (log, ebind rss (to_xml env)))))"

text \<open>
  \<^verbatim>\<open>title\<close> is bound only for the two sort keys; reading it otherwise raises
  \<^verbatim>\<open>UnboundLocalError\<close>.
\<close>

definition topic2rss :: "'doc env \<Rightarrow> string \<Rightarrow> json \<Rightarrow> json \<Rightarrow> string list \<times> string result" where
  "topic2rss env tid sortkey pic =
     (case topic_info env tid of
        Inl e \<Rightarrow> ([], Inl e)
      | Inr (nm, desc, url) \<Rightarrow>
          (case (if py_eq_str sortkey ''hot'' then Inr (nm @ topic_hot_suffix)
                 else if py_eq_str sortkey ''newest'' then Inr (nm @ topic_newest_suffix)
                 else Inl UnboundLocalError) of
             Inl e \<Rightarrow> ([], Inl e)
           | Inr ttl \<Rightarrow>
               (case topic_walk env tid sortkey of
                  Inl e \<Rightarrow> ([], Inl e)
                | Inr (posts, page, data) \<Rightarrow>
                    (case data2rss url (ttl, desc) posts
                            (\<lambda>post. post2rss env post False pic (Str ''question'')) of
                       (log, rss) \<Rightarrow> (log, ebind rss (to_xml env))))))"

section \<open>Request handlers\<close>

text \<open>
  \<^verbatim>\<open>self.get_argument(name, default)\<close>: the value of the request's argument as the
  framework hands it over, or the default when the request has none.
\<close>

definition get_argument :: "(string \<rightharpoonup> string) \<Rightarrow> string \<Rightarrow> json \<Rightarrow> json" where
  "get_argument args name dflt = (case args name of None \<Rightarrow> dflt | Some v \<Rightarrow> JStr v)"

definition ZhihuStream_get ::
  "'doc env \<Rightarrow> string \<Rightarrow> (string \<rightharpoonup> string) \<Rightarrow> string list \<times> string result" where
  "ZhihuStream_get env name args =
     (if endswith name '' '' then ([], Inl (HTTPError 404))
      else
        let pic = get_argument args ''pic'' JNull;
            digest = py_eq_str (get_argument args ''digest'' (JBool False)) ''true''
        in activities2rss env name digest pic)"

definition ZhihuTopic_get ::
  "'doc env \<Rightarrow> string \<Rightarrow> (string \<rightharpoonup> string) \<Rightarrow> string list \<times> string result" where
  "ZhihuTopic_get env tid args =
     (if endswith tid '' '' then ([], Inl (HTTPError 404))
      else
        let sort0 = get_argument args ''sort'' JNull;
            sortkey = (if \<not> py_in_strs sort0 [''newest'', ''hot''] then JStr ''hot'' else sort0);
            pic = get_argument args ''pic'' JNull
        in topic2rss env tid sortkey pic)"

section \<open>Reference definitions for the stated properties\<close>

text \<open>The cursor of a page reports the end of the stream.\<close>

definition reports_end :: "json \<Rightarrow> bool" where
  "reports_end data =
     (case subscript data ''paging'' of
        Inl e \<Rightarrow> False
      | Inr paging \<Rightarrow> (case subscript paging ''is_end'' of Inl e \<Rightarrow> False | Inr v \<Rightarrow> truthy v))"

text \<open>
  The \<open>n\<close> pages that come after \<open>data\<close> when each page's cursor is followed, the first
  of them being request \<open>k\<close> of the run: for a user stream, and for a topic stream
  (where the cursor's URL is rewritten to \<^verbatim>\<open>https\<close>).
\<close>

fun activities_pages :: "'doc env \<Rightarrow> nat \<Rightarrow> json \<Rightarrow> nat \<Rightarrow> json list result" where
  "activities_pages env k data 0 = Inr []"
| "activities_pages env k data (Suc n) =
     ebind (subscript data ''paging'') (\<lambda>paging.
     ebind (subscript paging ''next'') (\<lambda>nxt.
     ebind (get_json env k nxt) (\<lambda>data'.
     ebind (activities_pages env (Suc k) data' n) (\<lambda>rest. Inr (data' # rest)))))"

fun topic_pages :: "'doc env \<Rightarrow> nat \<Rightarrow> json \<Rightarrow> nat \<Rightarrow> json list result" where
  "topic_pages env k data 0 = Inr []"
| "topic_pages env k data (Suc n) =
     ebind (subscript data ''paging'') (\<lambda>paging.
     ebind (subscript paging ''next'') (\<lambda>nxt.
     ebind (https_url nxt) (\<lambda>next_url.
     ebind (get_json env k next_url) (\<lambda>data'.
     ebind (topic_pages env (Suc k) data' n) (\<lambda>rest. Inr (data' # rest))))))"

text \<open>
  A page whose cursor can be read: it has \<^verbatim>\<open>paging\<close> with \<^verbatim>\<open>is_end\<close> and \<^verbatim>\<open>next\<close>; for
  a topic stream \<^verbatim>\<open>next\<close> is moreover a \<^verbatim>\<open>str\<close>.
\<close>

definition cursor_ok :: "json \<Rightarrow> bool" where
  "cursor_ok data =
     (case subscript data ''paging'' of
        Inl e \<Rightarrow> False
      | Inr paging \<Rightarrow>
          (case subscript paging ''is_end'' of
             Inl e \<Rightarrow> False
           | Inr is_end \<Rightarrow> (case subscript paging ''next'' of Inl e \<Rightarrow> False | Inr nxt \<Rightarrow> True)))"

definition topic_cursor_ok :: "json \<Rightarrow> bool" where
  "topic_cursor_ok data =
     (case subscript data ''paging'' of
        Inl e \<Rightarrow> False
      | Inr paging \<Rightarrow>
          (case subscript paging ''is_end'' of
             Inl e \<Rightarrow> False
           | Inr is_end \<Rightarrow>
               (case ebind (subscript paging ''next'') https_url of
                  Inl e \<Rightarrow> False
                | Inr next_url \<Rightarrow> True)))"

text \<open>The posts of a list of pages, page by page.\<close>

fun collect :: "(json \<Rightarrow> json list result) \<Rightarrow> json list \<Rightarrow> json list result" where
  "collect posts_of [] = Inr []"
| "collect posts_of (d # ds) =
     ebind (posts_of d) (\<lambda>ps. ebind (collect posts_of ds) (\<lambda>qs. Inr (ps @ qs)))"

text \<open>The acceptance policy of a user stream on one activity, and the post an activity carries.\<close>

definition accepted :: "json \<Rightarrow> bool" where
  "accepted x = (case subscript x ''verb'' of Inl e \<Rightarrow> False | Inr v \<Rightarrow> py_in_strs v ACCEPT_VERBS)"

definition target_of :: "json \<Rightarrow> json" where
  "target_of x = (case subscript x ''target'' of Inl e \<Rightarrow> JNull | Inr t \<Rightarrow> t)"

text \<open>The value of \<^verbatim>\<open>post.get('thumbnail')\<close> and the body that is parsed (lines 229 to 232).\<close>

definition thumbnail_of :: "(string \<times> json) list \<Rightarrow> json" where
  "thumbnail_of kvs = (case map_of kvs ''thumbnail'' of None \<Rightarrow> JNull | Some v \<Rightarrow> v)"

definition img_tag :: "'doc env \<Rightarrow> json \<Rightarrow> string" where
  "img_tag env thumbnail = ''<img src='' @ dq (py_str env thumbnail) @ ''>''"

section \<open>A sample environment\<close>

text \<open>
  An upstream of fixed pages for the examples: the pages are (body, value) pairs, served
  in order after the profile page, the last one again for every later request; the HTML
  collaborators leave the text as it is.
\<close>

definition demo_env :: "string \<Rightarrow> (string \<times> json) list \<Rightarrow> string env" where
  "demo_env profile pages =
     \<lparr>time = 1541289600,
      urljoin = (\<lambda>base url. Inr (base @ (case url of JStr s \<Rightarrow> s | _ \<Rightarrow> []))),
      fetch_zhihu = (\<lambda>n url headers.
        if n = 0 then Inr profile
        else if pages = [] then Inl (External ''timeout'')
        else Inr (fst (pages ! min (n - 1) (length pages - 1)))),
      json_loads = (\<lambda>body.
        case map_of pages body of None \<Rightarrow> Inl (External ''JSONDecodeError'') | Some v \<Rightarrow> Inr v),
      quote_dumps = (\<lambda>name. name),
      decode = Inr,
      fromstring = (\<lambda>s. if s = [] then Inl (External ''ParserError'') else Inr s),
      xpath_text = (\<lambda>doc path. [doc]),
      xpath_href = (\<lambda>doc path. [JStr ''/people/demo'']),
      tidy_content = Inr,
      proxify_pic = (\<lambda>doc pic. Inr doc),
      tostring = (\<lambda>doc. doc),
      utcfromtimestamp = Inr,
      repr = (\<lambda>v. ''...''),
      to_xml = (\<lambda>rss. Inr (concat (map title (items rss))))\<rparr>"

definition demo_fields :: "int \<Rightarrow> string \<Rightarrow> (string \<times> json) list" where
  "demo_fields n body =
     [(''type'', JStr ''answer''), (''id'', JInt n),
      (''question'', JObj [(''id'', JInt 7), (''title'', JStr ''Why?'')]),
      (''created_time'', JInt 1500000000),
      (''author'', JObj [(''name'', JStr ''Ann'')]),
      (''excerpt'', JStr ''short''), (''content'', JStr body),
      (''thumbnail'', JStr ''http://pic/1.jpg'')]"

definition demo_answer :: "int \<Rightarrow> string \<Rightarrow> json" where
  "demo_answer n body = JObj (demo_fields n body)"

definition demo_activity :: "string \<Rightarrow> json \<Rightarrow> json" where
  "demo_activity verb post = JObj [(''verb'', JStr verb), (''target'', post)]"

definition demo_page :: "json list \<Rightarrow> bool \<Rightarrow> string \<Rightarrow> json" where
  "demo_page xs is_end nxt =
     JObj [(''data'', JList xs),
           (''paging'', JObj [(''is_end'', JBool is_end), (''next'', JStr nxt)])]"

definition demo_page0 :: json where
  "demo_page0 =
     demo_page [demo_activity ''ANSWER_CREATE'' (demo_answer 1 ''one''),
                demo_activity ''MEMBER_FOLLOW_QUESTION'' (demo_answer 2 ''two''),
                demo_activity ''ANSWER_CREATE'' (demo_answer 3 ''three'')]
       False ''http://next/1''"

definition demo_page1 :: json where
  "demo_page1 = demo_page [demo_activity ''ANSWER_CREATE'' (demo_answer 4 ''four'')] True []"

definition demo_pages :: "(string \<times> json) list" where
  "demo_pages = [(''page0'', demo_page0), (''page1'', demo_page1)]"

section \<open>Properties\<close>

declare activities_loop.simps [simp del] topic_loop.simps [simp del]

lemma ebind_Inr: "ebind m f = Inr y \<longleftrightarrow> (\<exists>x. m = Inr x \<and> f x = Inr y)"
  by (cases m) (simp_all add: ebind_def)

lemma ebind_Inr_simp [simp]: "ebind (Inr x) f = f x"
  by (simp add: ebind_def)

lemma ebind_Inl_simp [simp]: "ebind (Inl e) f = Inl e"
  by (simp add: ebind_def)

lemma subscript_Some: "map_of kvs k = Some v \<Longrightarrow> subscript (JObj kvs) k = Inr v"
  by simp

lemma subscript_None: "map_of kvs k = None \<Longrightarrow> subscript (JObj kvs) k = Inl (KeyError k)"
  by simp

subsection \<open>Body selection\<close>

text \<open>
  C4. For an item with a kind, the body is one field of the item, chosen in this order:
  the title when the kind is \<^verbatim>\<open>question\<close>; otherwise the excerpt when digest mode is
  requested; otherwise the excerpt when the item has no \<^verbatim>\<open>content\<close> field; otherwise
  the content. Reading the chosen field is a subscript, so a chosen field that is
  missing raises \<^verbatim>\<open>KeyError\<close>.
\<close>

theorem post_content_priority:
  assumes "map_of kvs ''type'' = Some ty"
  shows "post_content (JObj kvs) digest =
     subscript (JObj kvs)
       (if ty = JStr ''question'' then ''title''
        else if digest then ''excerpt''
        else if map_of kvs ''content'' = None then ''excerpt''
        else ''content'')"
  using assms
  by (simp add: post_content_def ebind_def py_eq_str_def map_of_eq_None_iff subscript_Some
      del: subscript.simps)

theorem post_content_priority_witness:
  "post_content (demo_answer 1 ''one'') False = Inr (JStr ''one'')
   \<and> post_content (demo_answer 1 ''one'') True = Inr (JStr ''short'')
   \<and> post_content (JObj [(''type'', JStr ''answer''), (''excerpt'', JStr ''e'')]) False = Inr (JStr ''e'')
   \<and> post_content (JObj [(''type'', JStr ''question''), (''title'', JStr ''t''),
        (''excerpt'', JStr ''e''), (''content'', JStr ''c'')]) True = Inr (JStr ''t'')"
  unfolding demo_answer_def demo_fields_def
  by (simp add: post_content_priority [where ty = "JStr ''answer''"]
      post_content_priority [where ty = "JStr ''question''"] del: subscript.simps)
     simp

subsection \<open>Code elements\<close>

text \<open>
  C3. The two replacements put \<^verbatim>\<open><pre>\<close> before an opening tag only when the tag name
  is followed by a space, that is, when the element has attributes, and \<^verbatim>\<open></pre>\<close>
  after every closing tag. A \<^verbatim>\<open><code>\<close> element without attributes is therefore not
  wrapped: it gets a closing \<^verbatim>\<open></pre>\<close> with no opening one. An element with an
  attribute is wrapped.
\<close>

theorem code_without_attributes_not_wrapped:
  "wrap_code ''<code>x</code>'' = ''<code>x</code></pre>''
   \<and> wrap_code ''<code class=a>x</code>'' = ''<pre><code class=a>x</code></pre>''"
  by (simp add: wrap_code_def)

subsection \<open>Kinds that give no entry\<close>

text \<open>
  C7. An item whose kind is not \<^verbatim>\<open>answer\<close>, not \<^verbatim>\<open>article\<close> and not an accepted
  \<^verbatim>\<open>question\<close> gives no entry and raises nothing. For \<^verbatim>\<open>roundtable\<close>, \<^verbatim>\<open>live\<close> and
  \<^verbatim>\<open>column\<close> nothing is logged; for every other kind one warning naming the kind is
  logged.
\<close>

theorem skipped_kinds:
  assumes "map_of kvs ''type'' = Some ty"
    and "ty \<noteq> JStr ''answer''" and "ty \<noteq> JStr ''article''"
    and "\<not> (in_extra_types ''question'' extra \<and> ty = JStr ''question'')"
  shows "post2rss env (JObj kvs) digest pic extra =
     (if ty \<in> {JStr ''roundtable'', JStr ''live'', JStr ''column''} then []
      else [''unknown type: '' @ py_str env ty], Inr None)"
  using assms
  by (auto simp: post2rss_def post2rss_dispatch_def py_eq_str_def py_in_strs_def)

theorem skipped_kinds_witness:
  "post2rss (demo_env ''p'' demo_pages) (JObj [(''type'', JStr ''roundtable'')]) False JNull (Tuple [])
     = ([], Inr None)
   \<and> post2rss (demo_env ''p'' demo_pages) (JObj [(''type'', JStr ''pin'')]) False JNull (Str ''question'')
     = ([''unknown type: pin''], Inr None)
   \<and> post2rss (demo_env ''p'' demo_pages) (JObj [(''type'', JStr ''question'')]) False JNull (Tuple [])
     = ([''unknown type: question''], Inr None)"
  using skipped_kinds [of "[(''type'', JStr ''roundtable'')]" "JStr ''roundtable''" "Tuple []"
      "demo_env ''p'' demo_pages" False JNull]
    skipped_kinds [of "[(''type'', JStr ''pin'')]" "JStr ''pin''" "Str ''question''"
      "demo_env ''p'' demo_pages" False JNull]
    skipped_kinds [of "[(''type'', JStr ''question'')]" "JStr ''question''" "Tuple []"
      "demo_env ''p'' demo_pages" False JNull]
  by simp

subsection \<open>Request handlers\<close>

text \<open>
  C8. When the request for the profile card returns an empty body, a user-stream
  request ends with \<^verbatim>\<open>HTTPError(404)\<close>, whatever the name and the arguments are.
\<close>

theorem empty_card_404:
  assumes "fetch_zhihu env 0 (card_url env name) [(''User-Agent'', user_agent)] = Inr []"
  shows "ZhihuStream_get env name args = ([], Inl (HTTPError 404))"
  using assms
  by (simp add: ZhihuStream_get_def activities2rss_def card_def ebind_def Let_def)

theorem empty_card_404_witness:
  "ZhihuStream_get (demo_env [] demo_pages) ''lilydjwg'' Map.empty = ([], Inl (HTTPError 404))"
  using empty_card_404 [of "demo_env [] demo_pages" "''lilydjwg''" Map.empty]
  by (simp add: demo_env_def)

text \<open>
  C9. When the \<^verbatim>\<open>sort\<close> argument of a topic-stream request is absent or is neither
  \<^verbatim>\<open>hot\<close> nor \<^verbatim>\<open>newest\<close>, the request does what the same request with \<^verbatim>\<open>sort=hot\<close>
  does; when the topic id is accepted, that is \<^verbatim>\<open>topic2rss\<close> with the sort key
  \<^verbatim>\<open>hot\<close>.
\<close>

theorem sort_fallback:
  assumes "args ''sort'' \<noteq> Some ''hot''" and "args ''sort'' \<noteq> Some ''newest''"
  shows "ZhihuTopic_get env tid args = ZhihuTopic_get env tid (args(''sort'' \<mapsto> ''hot''))
    \<and> (\<not> endswith tid '' '' \<longrightarrow>
         ZhihuTopic_get env tid args = topic2rss env tid (JStr ''hot'') (get_argument args ''pic'' JNull))"
  using assms
  by (auto simp: ZhihuTopic_get_def get_argument_def py_eq_str_def py_in_strs_def Let_def
      split: option.splits)

theorem sort_fallback_witness:
  "ZhihuTopic_get (demo_env ''p'' demo_pages) ''19551894'' [''sort'' \<mapsto> ''bogus'']
     = ZhihuTopic_get (demo_env ''p'' demo_pages) ''19551894'' [''sort'' \<mapsto> ''hot'']
   \<and> ZhihuTopic_get (demo_env ''p'' demo_pages) ''19551894'' [''sort'' \<mapsto> ''bogus'']
     = topic2rss (demo_env ''p'' demo_pages) ''19551894'' (JStr ''hot'') JNull
   \<and> ZhihuTopic_get (demo_env ''p'' demo_pages) ''19551894'' Map.empty
     = topic2rss (demo_env ''p'' demo_pages) ''19551894'' (JStr ''hot'') JNull"
proof -
  have tid: "\<not> endswith ''19551894'' '' ''"
    by (simp add: endswith_def)
  have pic: "get_argument [''sort'' \<mapsto> ''bogus''] ''pic'' JNull = JNull"
    "get_argument Map.empty ''pic'' JNull = JNull"
    by (simp_all add: get_argument_def)
  have bogus: "[''sort'' \<mapsto> ''bogus''] ''sort'' \<noteq> Some ''hot''"
    "[''sort'' \<mapsto> ''bogus''] ''sort'' \<noteq> Some ''newest''"
    by simp_all
  have absent: "Map.empty ''sort'' \<noteq> Some ''hot''" "Map.empty ''sort'' \<noteq> Some ''newest''"
    by simp_all
  have 1: "ZhihuTopic_get (demo_env ''p'' demo_pages) ''19551894'' [''sort'' \<mapsto> ''bogus'']
     = ZhihuTopic_get (demo_env ''p'' demo_pages) ''19551894'' [''sort'' \<mapsto> ''hot'']"
    using sort_fallback [of "[''sort'' \<mapsto> ''bogus'']" "demo_env ''p'' demo_pages" "''19551894''",
        OF bogus, THEN conjunct1]
    by simp
  have 2: "ZhihuTopic_get (demo_env ''p'' demo_pages) ''19551894'' [''sort'' \<mapsto> ''bogus'']
     = topic2rss (demo_env ''p'' demo_pages) ''19551894'' (JStr ''hot'') JNull"
    using sort_fallback [of "[''sort'' \<mapsto> ''bogus'']" "demo_env ''p'' demo_pages" "''19551894''",
        OF bogus, THEN conjunct2] tid pic
    by simp
  have 3: "ZhihuTopic_get (demo_env ''p'' demo_pages) ''19551894'' Map.empty
     = topic2rss (demo_env ''p'' demo_pages) ''19551894'' (JStr ''hot'') JNull"
    using sort_fallback [of Map.empty "demo_env ''p'' demo_pages" "''19551894''",
        OF absent, THEN conjunct2] tid pic
    by simp
  from 1 2 3 show ?thesis by (intro conjI)
qed

text \<open>
  C10. Digest mode of a user-stream request is on exactly when the \<^verbatim>\<open>digest\<close>
  argument is the string \<^verbatim>\<open>true\<close>; any other value and an absent argument give digest
  mode off. The flag is computed without raising: a request with an accepted name is
  \<^verbatim>\<open>activities2rss\<close> with that flag.
\<close>

theorem digest_flag:
  "py_eq_str (get_argument args ''digest'' (JBool False)) ''true'' = (args ''digest'' = Some ''true'')
   \<and> (\<not> endswith name '' '' \<longrightarrow>
        ZhihuStream_get env name args =
          activities2rss env name (args ''digest'' = Some ''true'') (get_argument args ''pic'' JNull))"
  by (auto simp: ZhihuStream_get_def get_argument_def py_eq_str_def Let_def split: option.splits)

theorem digest_flag_witness:
  "ZhihuStream_get (demo_env ''p'' demo_pages) ''u'' [''digest'' \<mapsto> ''True'']
     = activities2rss (demo_env ''p'' demo_pages) ''u'' False JNull
   \<and> ZhihuStream_get (demo_env ''p'' demo_pages) ''u'' [''digest'' \<mapsto> ''true'']
     = activities2rss (demo_env ''p'' demo_pages) ''u'' True JNull
   \<and> ZhihuStream_get (demo_env ''p'' demo_pages) ''u'' [''digest'' \<mapsto> ''1'']
     = activities2rss (demo_env ''p'' demo_pages) ''u'' False JNull
   \<and> ZhihuStream_get (demo_env ''p'' demo_pages) ''u'' [''digest'' \<mapsto> []]
     = activities2rss (demo_env ''p'' demo_pages) ''u'' False JNull
   \<and> ZhihuStream_get (demo_env ''p'' demo_pages) ''u'' Map.empty
     = activities2rss (demo_env ''p'' demo_pages) ''u'' False JNull"
  using digest_flag [of "[''digest'' \<mapsto> ''True'']" "''u''" "demo_env ''p'' demo_pages"]
    digest_flag [of "[''digest'' \<mapsto> ''true'']" "''u''" "demo_env ''p'' demo_pages"]
    digest_flag [of "[''digest'' \<mapsto> ''1'']" "''u''" "demo_env ''p'' demo_pages"]
    digest_flag [of "[''digest'' \<mapsto> []]" "''u''" "demo_env ''p'' demo_pages"]
    digest_flag [of Map.empty "''u''" "demo_env ''p'' demo_pages"]
  by (simp add: endswith_def get_argument_def)

subsection \<open>Pagination\<close>

lemma activities_pages_length:
  "activities_pages env k data n = Inr rest \<Longrightarrow> length rest = n"
  by (induction n arbitrary: k data rest) (auto simp: ebind_Inr)

lemma activities_loop_trace:
  "activities_loop env posts page data = Inr (posts', page', data') \<Longrightarrow>
     page \<le> page' \<and>
     (\<exists>rest new. activities_pages env (2 + page) data (page' - page) = Inr rest
        \<and> collect activity_posts rest = Inr new
        \<and> posts' = posts @ new \<and> data' = last (data # rest))"
proof (induction env posts page data rule: activities_loop.induct)
  case (1 env posts page data)
  note run = "1.prems"
  show ?case
  proof (cases "length posts < 20 \<and> page < 3")
    case False
    with run have "posts' = posts" "page' = page" "data' = data"
      by (simp_all add: activities_loop.simps [of env posts page data])
    then show ?thesis by simp
  next
    case True
    with run obtain paging is_end where
      pg: "subscript data ''paging'' = Inr paging" and
      ie: "subscript paging ''is_end'' = Inr is_end" and
      body: "(if truthy is_end then Inr (posts, page, data)
              else ebind (subscript paging ''next'') (\<lambda>nxt.
                   ebind (get_json env (2 + page) nxt) (\<lambda>data1.
                   ebind (activity_posts data1) (\<lambda>new.
                     activities_loop env (posts @ new) (page + 1) data1))))
             = Inr (posts', page', data')"
      by (subst (asm) activities_loop.simps) (auto simp: ebind_Inr)
    show ?thesis
    proof (cases "truthy is_end")
      case True
      with body have "posts' = posts" "page' = page" "data' = data" by simp_all
      then show ?thesis by simp
    next
      case False
      with body obtain nxt data1 new1 where
        nx: "subscript paging ''next'' = Inr nxt" and
        gj: "get_json env (2 + page) nxt = Inr data1" and
        ap: "activity_posts data1 = Inr new1" and
        rec: "activities_loop env (posts @ new1) (page + 1) data1 = Inr (posts', page', data')"
        by (auto simp: ebind_Inr)
      from "1.IH" [OF True False rec]
      obtain rest new where
        le: "page + 1 \<le> page'" and
        pages: "activities_pages env (2 + (page + 1)) data1 (page' - (page + 1)) = Inr rest" and
        col: "collect activity_posts rest = Inr new" and
        ps: "posts' = (posts @ new1) @ new" and
        lst: "data' = last (data1 # rest)"
        by blast
      from le have d: "page' - page = Suc (page' - (page + 1))" by simp
      have "activities_pages env (2 + page) data (page' - page) = Inr (data1 # rest)"
        using pg nx gj pages by (simp add: d)
      moreover have "collect activity_posts (data1 # rest) = Inr (new1 @ new)"
        using ap col by simp
      moreover have "posts' = posts @ (new1 @ new)" using ps by simp
      moreover have "data' = last (data # data1 # rest)" using lst by simp
      ultimately show ?thesis using le by auto
    qed
  qed
qed

lemma activities_loop_stop:
  "activities_loop env posts page data = Inr (posts', page', data') \<Longrightarrow> page \<le> 3 \<Longrightarrow>
     (20 \<le> length posts' \<or> reports_end data' \<or> page' = 3) \<and> page' \<le> 3"
proof (induction env posts page data rule: activities_loop.induct)
  case (1 env posts page data)
  note run = "1.prems"(1) and bound = "1.prems"(2)
  show ?case
  proof (cases "length posts < 20 \<and> page < 3")
    case False
    with run have "posts' = posts" "page' = page" "data' = data"
      by (simp_all add: activities_loop.simps [of env posts page data])
    with False bound show ?thesis by auto
  next
    case True
    with run obtain paging is_end where
      pg: "subscript data ''paging'' = Inr paging" and
      ie: "subscript paging ''is_end'' = Inr is_end" and
      body: "(if truthy is_end then Inr (posts, page, data)
              else ebind (subscript paging ''next'') (\<lambda>nxt.
                   ebind (get_json env (2 + page) nxt) (\<lambda>data1.
                   ebind (activity_posts data1) (\<lambda>new.
                     activities_loop env (posts @ new) (page + 1) data1))))
             = Inr (posts', page', data')"
      by (subst (asm) activities_loop.simps) (auto simp: ebind_Inr)
    show ?thesis
    proof (cases "truthy is_end")
      case True
      with body have "posts' = posts" "page' = page" "data' = data" by simp_all
      with pg ie True bound show ?thesis by (simp add: reports_end_def)
    next
      case False
      with body obtain nxt data1 new1 where
        rec: "activities_loop env (posts @ new1) (page + 1) data1 = Inr (posts', page', data')"
        by (auto simp: ebind_Inr)
      from True have "page + 1 \<le> 3" by simp
      from "1.IH" [OF True False rec this] show ?thesis .
    qed
  qed
qed


lemma topic_pages_length:
  "topic_pages env k data n = Inr rest \<Longrightarrow> length rest = n"
  by (induction n arbitrary: k data rest) (auto simp: ebind_Inr)

lemma topic_loop_trace:
  "topic_loop env posts page data = Inr (posts', page', data') \<Longrightarrow>
     page \<le> page' \<and>
     (\<exists>rest new. topic_pages env (2 + page) data (page' - page) = Inr rest
        \<and> collect topic_posts rest = Inr new
        \<and> posts' = posts @ new \<and> data' = last (data # rest))"
proof (induction env posts page data rule: topic_loop.induct)
  case (1 env posts page data)
  note run = "1.prems"
  show ?case
  proof (cases "length posts < 20 \<and> page < 3")
    case False
    with run have "posts' = posts" "page' = page" "data' = data"
      by (simp_all add: topic_loop.simps [of env posts page data])
    then show ?thesis by simp
  next
    case True
    with run obtain paging is_end where
      pg: "subscript data ''paging'' = Inr paging" and
      ie: "subscript paging ''is_end'' = Inr is_end" and
      body: "(if truthy is_end then Inr (posts, page, data)
              else ebind (subscript paging ''next'') (\<lambda>nxt.
                   ebind (https_url nxt) (\<lambda>next_url.
                   ebind (get_json env (2 + page) next_url) (\<lambda>data1.
                   ebind (topic_posts data1) (\<lambda>new.
                     topic_loop env (posts @ new) (page + 1) data1)))))
             = Inr (posts', page', data')"
      by (subst (asm) topic_loop.simps) (auto simp: ebind_Inr)
    show ?thesis
    proof (cases "truthy is_end")
      case True
      with body have "posts' = posts" "page' = page" "data' = data" by simp_all
      then show ?thesis by simp
    next
      case False
      with body obtain nxt next_url data1 new1 where
        nx: "subscript paging ''next'' = Inr nxt" and
        hu: "https_url nxt = Inr next_url" and
        gj: "get_json env (2 + page) next_url = Inr data1" and
        ap: "topic_posts data1 = Inr new1" and
        rec: "topic_loop env (posts @ new1) (page + 1) data1 = Inr (posts', page', data')"
        by (auto simp: ebind_Inr)
      from "1.IH" [OF True False rec]
      obtain rest new where
        le: "page + 1 \<le> page'" and
        pages: "topic_pages env (2 + (page + 1)) data1 (page' - (page + 1)) = Inr rest" and
        col: "collect topic_posts rest = Inr new" and
        ps: "posts' = (posts @ new1) @ new" and
        lst: "data' = last (data1 # rest)"
        by blast
      from le have d: "page' - page = Suc (page' - (page + 1))" by simp
      have "topic_pages env (2 + page) data (page' - page) = Inr (data1 # rest)"
        using pg nx hu gj pages by (simp add: d)
      moreover have "collect topic_posts (data1 # rest) = Inr (new1 @ new)"
        using ap col by simp
      moreover have "posts' = posts @ (new1 @ new)" using ps by simp
      moreover have "data' = last (data # data1 # rest)" using lst by simp
      ultimately show ?thesis using le by auto
    qed
  qed
qed

lemma topic_loop_stop:
  "topic_loop env posts page data = Inr (posts', page', data') \<Longrightarrow> page \<le> 3 \<Longrightarrow>
     (20 \<le> length posts' \<or> reports_end data' \<or> page' = 3) \<and> page' \<le> 3"
proof (induction env posts page data rule: topic_loop.induct)
  case (1 env posts page data)
  note run = "1.prems"(1) and bound = "1.prems"(2)
  show ?case
  proof (cases "length posts < 20 \<and> page < 3")
    case False
    with run have "posts' = posts" "page' = page" "data' = data"
      by (simp_all add: topic_loop.simps [of env posts page data])
    with False bound show ?thesis by auto
  next
    case True
    with run obtain paging is_end where
      pg: "subscript data ''paging'' = Inr paging" and
      ie: "subscript paging ''is_end'' = Inr is_end" and
      body: "(if truthy is_end then Inr (posts, page, data)
              else ebind (subscript paging ''next'') (\<lambda>nxt.
                   ebind (https_url nxt) (\<lambda>next_url.
                   ebind (get_json env (2 + page) next_url) (\<lambda>data1.
                   ebind (topic_posts data1) (\<lambda>new.
                     topic_loop env (posts @ new) (page + 1) data1)))))
             = Inr (posts', page', data')"
      by (subst (asm) topic_loop.simps) (auto simp: ebind_Inr)
    show ?thesis
    proof (cases "truthy is_end")
      case True
      with body have "posts' = posts" "page' = page" "data' = data" by simp_all
      with pg ie True bound show ?thesis by (simp add: reports_end_def)
    next
      case False
      with body obtain nxt next_url data1 new1 where
        rec: "topic_loop env (posts @ new1) (page + 1) data1 = Inr (posts', page', data')"
        by (auto simp: ebind_Inr)
      from True have "page + 1 \<le> 3" by simp
      from "1.IH" [OF True False rec this] show ?thesis .
    qed
  qed
qed


lemma accepted_targets_filter:
  "accepted_targets xs = Inr ts \<Longrightarrow> ts = map target_of (filter accepted xs)"
proof (induction xs arbitrary: ts)
  case Nil
  then show ?case by simp
next
  case (Cons x xs)
  then show ?case
    by (auto simp: ebind_Inr accepted_def target_of_def split: if_splits)
qed

lemma all_targets_map: "all_targets xs = Inr ts \<Longrightarrow> ts = map target_of xs"
  by (induction xs arbitrary: ts) (auto simp: ebind_Inr target_of_def)

lemma cursor_okE:
  assumes "cursor_ok data"
  obtains paging is_end nxt where
    "subscript data ''paging'' = Inr paging" "subscript paging ''is_end'' = Inr is_end"
    "subscript paging ''next'' = Inr nxt"
  using assms by (auto simp: cursor_ok_def split: sum.splits)

lemma topic_cursor_okE:
  assumes "topic_cursor_ok data"
  obtains paging is_end nxt next_url where
    "subscript data ''paging'' = Inr paging" "subscript paging ''is_end'' = Inr is_end"
    "subscript paging ''next'' = Inr nxt" "https_url nxt = Inr next_url"
  using assms by (auto simp: topic_cursor_ok_def ebind_Inr split: sum.splits)

lemma activities_loop_returns:
  "\<forall>k u. 0 < k \<longrightarrow> (\<exists>d ps. get_json env k u = Inr d \<and> cursor_ok d \<and> activity_posts d = Inr ps) \<Longrightarrow>
   cursor_ok data \<Longrightarrow> \<exists>r. activities_loop env posts page data = Inr r"
proof (induction env posts page data rule: activities_loop.induct)
  case (1 env posts page data)
  note up = "1.prems"(1) and cur = "1.prems"(2)
  show ?case
  proof (cases "length posts < 20 \<and> page < 3")
    case False
    have "activities_loop env posts page data = Inr (posts, page, data)"
      by (subst activities_loop.simps) (simp only: False if_False)
    then show ?thesis by blast
  next
    case True
    from cur obtain paging is_end nxt where
      c: "subscript data ''paging'' = Inr paging" "subscript paging ''is_end'' = Inr is_end"
        "subscript paging ''next'' = Inr nxt"
      by (rule cursor_okE)
    show ?thesis
    proof (cases "truthy is_end")
      case True
      with \<open>length posts < 20 \<and> page < 3\<close> c show ?thesis
        by (simp add: activities_loop.simps [of env posts page data])
    next
      case False
      from up have "\<exists>d ps. get_json env (2 + page) nxt = Inr d \<and> cursor_ok d
          \<and> activity_posts d = Inr ps"
        by simp
      then obtain d ps where
        d: "get_json env (2 + page) nxt = Inr d" "cursor_ok d" "activity_posts d = Inr ps"
        by blast
      from "1.IH" [OF True False up d(2)] obtain r where
        "activities_loop env (posts @ ps) (page + 1) d = Inr r" by blast
      with True False c d show ?thesis
        by (cases r) (simp add: activities_loop.simps [of env posts page data])
    qed
  qed
qed

lemma activities_walk_returns:
  assumes "\<forall>k u. 0 < k \<longrightarrow> (\<exists>d ps. get_json env k u = Inr d \<and> cursor_ok d \<and> activity_posts d = Inr ps)"
  shows "\<exists>r. activities_walk env name = Inr r"
proof -
  from assms have "\<exists>d ps. activities env name = Inr d \<and> cursor_ok d \<and> activity_posts d = Inr ps"
    unfolding activities_def by simp
  then obtain d ps where
    d: "activities env name = Inr d" "cursor_ok d" "activity_posts d = Inr ps"
    by blast
  from activities_loop_returns [OF assms d(2)] obtain r where
    "activities_loop env ps 0 d = Inr r" by blast
  with d show ?thesis by (cases r) (simp add: activities_walk_def)
qed

lemma topic_loop_returns:
  "\<forall>k u. 0 < k \<longrightarrow> (\<exists>d ps. get_json env k u = Inr d \<and> topic_cursor_ok d \<and> topic_posts d = Inr ps) \<Longrightarrow>
   topic_cursor_ok data \<Longrightarrow> \<exists>r. topic_loop env posts page data = Inr r"
proof (induction env posts page data rule: topic_loop.induct)
  case (1 env posts page data)
  note up = "1.prems"(1) and cur = "1.prems"(2)
  show ?case
  proof (cases "length posts < 20 \<and> page < 3")
    case False
    have "topic_loop env posts page data = Inr (posts, page, data)"
      by (subst topic_loop.simps) (simp only: False if_False)
    then show ?thesis by blast
  next
    case True
    from cur obtain paging is_end nxt next_url where
      c: "subscript data ''paging'' = Inr paging" "subscript paging ''is_end'' = Inr is_end"
        "subscript paging ''next'' = Inr nxt" "https_url nxt = Inr next_url"
      by (rule topic_cursor_okE)
    show ?thesis
    proof (cases "truthy is_end")
      case True
      with \<open>length posts < 20 \<and> page < 3\<close> c show ?thesis
        by (simp add: topic_loop.simps [of env posts page data])
    next
      case False
      from up have "\<exists>d ps. get_json env (2 + page) next_url = Inr d \<and> topic_cursor_ok d
          \<and> topic_posts d = Inr ps"
        by simp
      then obtain d ps where
        d: "get_json env (2 + page) next_url = Inr d" "topic_cursor_ok d" "topic_posts d = Inr ps"
        by blast
      from "1.IH" [OF True False up d(2)] obtain r where
        "topic_loop env (posts @ ps) (page + 1) d = Inr r" by blast
      with True False c d show ?thesis
        by (cases r) (simp add: topic_loop.simps [of env posts page data])
    qed
  qed
qed

lemma topic_walk_returns:
  assumes "\<forall>k u. 0 < k \<longrightarrow> (\<exists>d ps. get_json env k u = Inr d \<and> topic_cursor_ok d \<and> topic_posts d = Inr ps)"
  shows "\<exists>r. topic_walk env tid sortkey = Inr r"
proof -
  from assms have "\<exists>d ps. topic env tid sortkey = Inr d \<and> topic_cursor_ok d \<and> topic_posts d = Inr ps"
    unfolding topic_def Let_def by simp
  then obtain d ps where
    d: "topic env tid sortkey = Inr d" "topic_cursor_ok d" "topic_posts d = Inr ps"
    by blast
  from topic_loop_returns [OF assms d(2)] obtain r where
    "topic_loop env ps 0 d = Inr r" by blast
  with d show ?thesis by (cases r) (simp add: topic_walk_def)
qed

text \<open>
  C1. When a walk returns, its post list has at least 20 items, or the last page
  consumed reported \<^verbatim>\<open>is_end\<close>, or exactly 3 pages were fetched after the first one;
  never more than 3 are. The first page is always fetched and its posts are the
  beginning of the list; \<open>page\<close> counts the pages fetched after it, each reached
  through the cursor of the page before. This holds for the user stream and for the
  topic stream. A walk does return when every request after the profile's is answered
  by a page whose items and cursor can be read; an upstream failure or an unreadable
  page raises instead.
\<close>

theorem aggregation_stops:
  "(activities_walk env name = Inr (posts, page, data) \<longrightarrow>
      (20 \<le> length posts \<or> reports_end data \<or> page = 3) \<and> page \<le> 3 \<and>
      (\<exists>first rest ps. activities env name = Inr first
         \<and> activities_pages env 2 first page = Inr rest \<and> length rest = page
         \<and> data = last (first # rest)
         \<and> activity_posts first = Inr ps \<and> prefix ps posts))
   \<and> (topic_walk env tid sortkey = Inr (posts, page, data) \<longrightarrow>
      (20 \<le> length posts \<or> reports_end data \<or> page = 3) \<and> page \<le> 3 \<and>
      (\<exists>first rest ps. topic env tid sortkey = Inr first
         \<and> topic_pages env 2 first page = Inr rest \<and> length rest = page
         \<and> data = last (first # rest)
         \<and> topic_posts first = Inr ps \<and> prefix ps posts))
   \<and> ((\<forall>k u. 0 < k \<longrightarrow>
          (\<exists>d ps. get_json env k u = Inr d \<and> cursor_ok d \<and> activity_posts d = Inr ps))
      \<longrightarrow> (\<exists>r. activities_walk env name = Inr r))
   \<and> ((\<forall>k u. 0 < k \<longrightarrow>
          (\<exists>d ps. get_json env k u = Inr d \<and> topic_cursor_ok d \<and> topic_posts d = Inr ps))
      \<longrightarrow> (\<exists>r. topic_walk env tid sortkey = Inr r))"
proof (intro conjI impI)
  assume run: "activities_walk env name = Inr (posts, page, data)"
  then obtain first ps where
    f: "activities env name = Inr first" and p: "activity_posts first = Inr ps" and
    loop: "activities_loop env ps 0 first = Inr (posts, page, data)"
    by (auto simp: activities_walk_def ebind_Inr)
  from activities_loop_stop [OF loop]
  show "20 \<le> length posts \<or> reports_end data \<or> page = 3" and "page \<le> 3" by simp_all
  from activities_loop_trace [OF loop] obtain rest new where
    r: "activities_pages env 2 first page = Inr rest" and
    n: "posts = ps @ new" and l: "data = last (first # rest)"
    by auto
  from r have "length rest = page" by (rule activities_pages_length)
  with f p r n l
  show "\<exists>first rest ps. activities env name = Inr first
         \<and> activities_pages env 2 first page = Inr rest \<and> length rest = page
         \<and> data = last (first # rest)
         \<and> activity_posts first = Inr ps \<and> prefix ps posts"
    by auto
next
  assume run: "topic_walk env tid sortkey = Inr (posts, page, data)"
  then obtain first ps where
    f: "topic env tid sortkey = Inr first" and p: "topic_posts first = Inr ps" and
    loop: "topic_loop env ps 0 first = Inr (posts, page, data)"
    by (auto simp: topic_walk_def ebind_Inr)
  from topic_loop_stop [OF loop]
  show "20 \<le> length posts \<or> reports_end data \<or> page = 3" and "page \<le> 3" by simp_all
  from topic_loop_trace [OF loop] obtain rest new where
    r: "topic_pages env 2 first page = Inr rest" and
    n: "posts = ps @ new" and l: "data = last (first # rest)"
    by auto
  from r have "length rest = page" by (rule topic_pages_length)
  with f p r n l
  show "\<exists>first rest ps. topic env tid sortkey = Inr first
         \<and> topic_pages env 2 first page = Inr rest \<and> length rest = page
         \<and> data = last (first # rest)
         \<and> topic_posts first = Inr ps \<and> prefix ps posts"
    by auto
next
  assume "\<forall>k u. 0 < k \<longrightarrow>
          (\<exists>d ps. get_json env k u = Inr d \<and> cursor_ok d \<and> activity_posts d = Inr ps)"
  then show "\<exists>r. activities_walk env name = Inr r"
    by (rule activities_walk_returns)
next
  assume "\<forall>k u. 0 < k \<longrightarrow>
          (\<exists>d ps. get_json env k u = Inr d \<and> topic_cursor_ok d \<and> topic_posts d = Inr ps)"
  then show "\<exists>r. topic_walk env tid sortkey = Inr r"
    by (rule topic_walk_returns)
qed

text \<open>
  C6. When a walk returns, its post list is the concatenation, in the order of the
  requests, of the posts of the pages consumed: the first page and the pages reached
  through the cursors. The posts of a page of a user stream are the targets of the
  accepted activities of the page in the page's order; those of a page of a topic
  stream are the targets of all its activities. Nothing is sorted and nothing is
  dropped as a duplicate.
\<close>

theorem posts_in_upstream_order:
  "(activities_walk env name = Inr (posts, page, data) \<longrightarrow>
      (\<exists>first rest. activities env name = Inr first
         \<and> activities_pages env 2 first page = Inr rest
         \<and> collect activity_posts (first # rest) = Inr posts))
   \<and> (topic_walk env tid sortkey = Inr (posts, page, data) \<longrightarrow>
      (\<exists>first rest. topic env tid sortkey = Inr first
         \<and> topic_pages env 2 first page = Inr rest
         \<and> collect topic_posts (first # rest) = Inr posts))
   \<and> (activity_posts d = Inr ps \<longrightarrow>
      (\<exists>xs. ebind (subscript d ''data'') py_iter = Inr xs
         \<and> ps = map target_of (filter accepted xs)))
   \<and> (topic_posts d = Inr ps \<longrightarrow>
      (\<exists>xs. ebind (subscript d ''data'') py_iter = Inr xs \<and> ps = map target_of xs))"
proof (intro conjI impI)
  assume run: "activities_walk env name = Inr (posts, page, data)"
  then obtain first ps where
    f: "activities env name = Inr first" and p: "activity_posts first = Inr ps" and
    loop: "activities_loop env ps 0 first = Inr (posts, page, data)"
    by (auto simp: activities_walk_def ebind_Inr)
  from activities_loop_trace [OF loop] obtain rest new where
    "activities_pages env 2 first page = Inr rest" and
    "collect activity_posts rest = Inr new" and "posts = ps @ new"
    by auto
  with f p
  show "\<exists>first rest. activities env name = Inr first
         \<and> activities_pages env 2 first page = Inr rest
         \<and> collect activity_posts (first # rest) = Inr posts"
    by auto
next
  assume run: "topic_walk env tid sortkey = Inr (posts, page, data)"
  then obtain first ps where
    f: "topic env tid sortkey = Inr first" and p: "topic_posts first = Inr ps" and
    loop: "topic_loop env ps 0 first = Inr (posts, page, data)"
    by (auto simp: topic_walk_def ebind_Inr)
  from topic_loop_trace [OF loop] obtain rest new where
    "topic_pages env 2 first page = Inr rest" and
    "collect topic_posts rest = Inr new" and "posts = ps @ new"
    by auto
  with f p
  show "\<exists>first rest. topic env tid sortkey = Inr first
         \<and> topic_pages env 2 first page = Inr rest
         \<and> collect topic_posts (first # rest) = Inr posts"
    by auto
next
  assume "activity_posts d = Inr ps"
  then show "\<exists>xs. ebind (subscript d ''data'') py_iter = Inr xs
         \<and> ps = map target_of (filter accepted xs)"
    by (auto simp: activity_posts_def ebind_Inr dest: accepted_targets_filter)
next
  assume "topic_posts d = Inr ps"
  then show "\<exists>xs. ebind (subscript d ''data'') py_iter = Inr xs \<and> ps = map target_of xs"
    by (auto simp: topic_posts_def ebind_Inr dest: all_targets_map)
qed

subsection \<open>Normalisation\<close>

declare show_nat.simps [simp del]

lemma replace_empty: "new \<noteq> [] \<Longrightarrow> old \<noteq> [] \<Longrightarrow> replace s old new = [] \<longleftrightarrow> s = []"
  by (cases s) simp_all

lemma wrap_code_empty: "wrap_code s = [] \<longleftrightarrow> s = []"
  by (simp add: wrap_code_def replace_empty)

lemma py_get_thumbnail: "py_get (JObj kvs) ''thumbnail'' = Inr (thumbnail_of kvs)"
  by (simp add: thumbnail_of_def split: option.splits)

lemma post2rss_entry:
  assumes "post2rss_dispatch env (JObj kvs) extra = (log, Inr (Some (title0, url, t_c, author0)))"
    and "post_content (JObj kvs) digest = Inr (JStr body)"
  shows "post2rss env (JObj kvs) digest pic extra =
     (log, render env pic title0 url t_c author0
             (if body = [] then img_tag env (thumbnail_of kvs) else wrap_code body))"
  using assms
  by (simp add: post2rss_def wrap_code_empty py_get_thumbnail img_tag_def del: py_get.simps)

lemma render_entry:
  assumes "sanitize env pic content = Inr html"
    and "py_timestamp t_c = Inr ts" and "utcfromtimestamp env ts = Inr d"
  shows "render env pic title0 url t_c author0 content =
     Inr (Some \<lparr>title = replace title0 [CHR 0x08] [], link = url, guid = url,
                description = replace html [CHR 0x08] [], pubDate = d, author = author0\<rparr>)"
  using assms by (simp add: render_def)

text \<open>
  C5. For an item of a recognised kind whose selected body is the empty string, the
  body that is rendered is the image tag with the value of \<^verbatim>\<open>post.get('thumbnail')\<close>
  as its source, and it goes through \<open>render\<close> (parse, tidy, picture proxy when
  requested, serialise, backspace removal) exactly as a textual body does after its
  code elements are wrapped.
\<close>

theorem empty_body_is_thumbnail:
  assumes "post2rss_dispatch env (JObj kvs) extra = (log, Inr (Some (title0, url, t_c, author0)))"
  shows "(post_content (JObj kvs) digest = Inr (JStr []) \<longrightarrow>
            post2rss env (JObj kvs) digest pic extra =
              (log, render env pic title0 url t_c author0
                      (''<img src='' @ dq (py_str env (thumbnail_of kvs)) @ ''>'')))
       \<and> (post_content (JObj kvs) digest = Inr (JStr body) \<and> body \<noteq> [] \<longrightarrow>
            post2rss env (JObj kvs) digest pic extra =
              (log, render env pic title0 url t_c author0 (wrap_code body)))"
  using assms by (simp add: post2rss_entry img_tag_def)

lemma demo_dispatch:
  "post2rss_dispatch (demo_env ''p'' demo_pages) (JObj (demo_fields k c)) (Tuple []) =
     ([], Inr (Some (answer_prefix @ ''Why?'',
                     ''https://www.zhihu.com/question/7/answer/'' @ show_int k,
                     JInt 1500000000, JStr ''Ann'')))"
  by (simp add: post2rss_dispatch_def demo_fields_def py_eq_str_def show_int_def show_nat.simps)

lemma demo_content:
  "post_content (JObj (demo_fields k c)) False = Inr (JStr c)"
  by (simp add: post_content_def demo_fields_def py_eq_str_def)

lemma demo_thumbnail: "thumbnail_of (demo_fields k c) = JStr ''http://pic/1.jpg''"
  by (simp add: thumbnail_of_def demo_fields_def)

lemma demo_sanitize:
  "s \<noteq> [] \<Longrightarrow> sanitize (demo_env ''p'' demo_pages) JNull s = Inr s"
  by (simp add: sanitize_def demo_env_def)

lemma demo_render:
  "s \<noteq> [] \<Longrightarrow> render (demo_env ''p'' demo_pages) JNull t u (JInt 1500000000) a s =
    Inr (Some \<lparr>title = replace t [CHR 0x08] [], link = u, guid = u,
                description = replace s [CHR 0x08] [], pubDate = 1500000000, author = a\<rparr>)"
  by (rule render_entry [OF demo_sanitize]) (simp_all add: demo_env_def)

lemma show_int_5: "show_int 5 = ''5''"
  by (simp add: show_int_def show_nat.simps)

lemma demo_title: "replace (answer_prefix @ ''Why?'') [CHR 0x08] [] = answer_prefix @ ''Why?''"
  by (simp add: answer_prefix_def)

theorem empty_body_is_thumbnail_witness:
  "post2rss (demo_env ''p'' demo_pages) (demo_answer 5 []) False JNull (Tuple []) =
     ([], Inr (Some \<lparr>title = answer_prefix @ ''Why?'',
                      link = ''https://www.zhihu.com/question/7/answer/5'',
                      guid = ''https://www.zhihu.com/question/7/answer/5'',
                      description = ''<img src='' @ dq ''http://pic/1.jpg'' @ ''>'',
                      pubDate = 1500000000, author = JStr ''Ann''\<rparr>))
   \<and> post2rss (demo_env ''p'' demo_pages) (demo_answer 5 ''<b>hi</b>'') False JNull (Tuple []) =
     ([], Inr (Some \<lparr>title = answer_prefix @ ''Why?'',
                      link = ''https://www.zhihu.com/question/7/answer/5'',
                      guid = ''https://www.zhihu.com/question/7/answer/5'',
                      description = ''<b>hi</b>'',
                      pubDate = 1500000000, author = JStr ''Ann''\<rparr>))"
proof -
  from empty_body_is_thumbnail [OF demo_dispatch [of 5 "[]"], where digest = False and pic = JNull,
      THEN conjunct1, rule_format, OF demo_content]
  have a: "post2rss (demo_env ''p'' demo_pages) (demo_answer 5 []) False JNull (Tuple []) =
     ([], Inr (Some \<lparr>title = answer_prefix @ ''Why?'',
                      link = ''https://www.zhihu.com/question/7/answer/5'',
                      guid = ''https://www.zhihu.com/question/7/answer/5'',
                      description = ''<img src='' @ dq ''http://pic/1.jpg'' @ ''>'',
                      pubDate = 1500000000, author = JStr ''Ann''\<rparr>))"
    by (simp add: demo_answer_def demo_thumbnail show_int_5 demo_title demo_render dq_def)
  from empty_body_is_thumbnail [OF demo_dispatch [of 5 "''<b>hi</b>''"],
      where digest = False and pic = JNull and body = "''<b>hi</b>''",
      THEN conjunct2, rule_format, OF conjI [OF demo_content]]
  have b: "post2rss (demo_env ''p'' demo_pages) (demo_answer 5 ''<b>hi</b>'') False JNull (Tuple []) =
     ([], Inr (Some \<lparr>title = answer_prefix @ ''Why?'',
                      link = ''https://www.zhihu.com/question/7/answer/5'',
                      guid = ''https://www.zhihu.com/question/7/answer/5'',
                      description = ''<b>hi</b>'',
                      pubDate = 1500000000, author = JStr ''Ann''\<rparr>))"
    by (simp add: demo_answer_def show_int_5 demo_title demo_render wrap_code_def)
  from a b show ?thesis by (intro conjI)
qed


lemma answer_dispatch:
  assumes "map_of kvs ''type'' = Some (JStr ''answer'')"
    and "map_of kvs ''question'' = Some (JObj q)"
    and "map_of q ''title'' = Some qtitle" and "map_of q ''id'' = Some qid"
    and "map_of kvs ''id'' = Some pid" and "map_of kvs ''created_time'' = Some t_c"
    and "map_of kvs ''author'' = Some (JObj a)" and "map_of a ''name'' = Some nm"
  shows "post2rss_dispatch env (JObj kvs) extra =
     ([], Inr (Some (answer_prefix @ py_str env qtitle,
                     ''https://www.zhihu.com/question/'' @ py_str env qid
                       @ ''/answer/'' @ py_str env pid,
                     t_c, nm)))"
  using assms by (simp add: post2rss_dispatch_def py_eq_str_def)

lemma article_dispatch:
  assumes "map_of kvs ''type'' = Some (JStr ''article'')"
    and "map_of kvs ''title'' = Some ptitle" and "map_of kvs ''id'' = Some pid"
    and "map_of kvs ''created'' = Some t_c"
    and "map_of kvs ''author'' = Some (JObj a)" and "map_of a ''name'' = Some nm"
  shows "post2rss_dispatch env (JObj kvs) extra =
     ([], Inr (Some (article_prefix @ py_str env ptitle,
                     ''https://zhuanlan.zhihu.com/p/'' @ py_str env pid, t_c, nm)))"
  using assms by (simp add: post2rss_dispatch_def py_eq_str_def)

lemma question_dispatch:
  assumes "map_of kvs ''type'' = Some (JStr ''question'')" and "in_extra_types ''question'' extra"
    and "map_of kvs ''title'' = Some ptitle" and "map_of kvs ''id'' = Some pid"
    and "map_of kvs ''created'' = Some t_c"
  shows "post2rss_dispatch env (JObj kvs) extra =
     ([], Inr (Some (question_prefix @ py_str env ptitle,
                     ''https://www.zhihu.com/question/'' @ py_str env pid, t_c, JNull)))"
  using assms by (simp add: post2rss_dispatch_def py_eq_str_def)

lemma body_field:
  assumes "map_of kvs ''type'' = Some ty" and "ty \<noteq> JStr ''question''"
    and "map_of kvs (if digest \<or> map_of kvs ''content'' = None then ''excerpt'' else ''content'')
           = Some body"
  shows "post_content (JObj kvs) digest = Inr body"
  using assms
  by (auto simp: post_content_def py_eq_str_def map_of_eq_None_iff split: if_splits)

lemma body_title:
  assumes "map_of kvs ''type'' = Some (JStr ''question'')" and "map_of kvs ''title'' = Some body"
  shows "post_content (JObj kvs) digest = Inr body"
  using assms by (simp add: post_content_def py_eq_str_def)

lemma missing_title:
  assumes "map_of kvs ''type'' = Some ty"
    and "ty = JStr ''article'' \<or> (ty = JStr ''question'' \<and> in_extra_types ''question'' extra)"
    and "map_of kvs ''title'' = None"
  shows "post2rss env (JObj kvs) digest pic extra = ([], Inl (KeyError ''title''))"
  using assms by (auto simp: post2rss_def post2rss_dispatch_def py_eq_str_def)

lemma missing_id:
  assumes "map_of kvs ''type'' = Some ty"
    and "ty = JStr ''article'' \<or> (ty = JStr ''question'' \<and> in_extra_types ''question'' extra)"
    and "map_of kvs ''title'' = Some ptitle" and "map_of kvs ''id'' = None"
  shows "post2rss env (JObj kvs) digest pic extra = ([], Inl (KeyError ''id''))"
  using assms by (auto simp: post2rss_def post2rss_dispatch_def py_eq_str_def)

lemma answer_missing_title:
  assumes "map_of kvs ''type'' = Some (JStr ''answer'')"
    and "map_of kvs ''question'' = Some (JObj q)" and "map_of q ''title'' = None"
  shows "post2rss env (JObj kvs) digest pic extra = ([], Inl (KeyError ''title''))"
  using assms by (simp add: post2rss_def post2rss_dispatch_def py_eq_str_def)

lemma answer_missing_id:
  assumes "map_of kvs ''type'' = Some (JStr ''answer'')"
    and "map_of kvs ''question'' = Some (JObj q)" and "map_of q ''title'' = Some qtitle"
    and "map_of q ''id'' = None \<or> map_of kvs ''id'' = None"
  shows "post2rss env (JObj kvs) digest pic extra = ([], Inl (KeyError ''id''))"
  using assms
  by (cases "map_of q ''id''") (auto simp: post2rss_def post2rss_dispatch_def py_eq_str_def)

lemma data2rss_items_skip:
  assumes "transform x = (log, Inl (KeyError k))"
  shows "data2rss_items transform (x # xs) =
     (log @ fst (data2rss_items transform xs), snd (data2rss_items transform xs))"
  using assms by (simp split: prod.splits)

lemma data2rss_items_nothing:
  assumes "transform x = (log, Inr None)"
  shows "data2rss_items transform (x # xs) =
     (log @ fst (data2rss_items transform xs), snd (data2rss_items transform xs))"
  using assms by (simp split: prod.splits)

lemma data2rss_items_entry:
  assumes "transform x = (log, Inr (Some it))"
  shows "data2rss_items transform (x # xs) =
     (log @ fst (data2rss_items transform xs),
      ebind (snd (data2rss_items transform xs)) (\<lambda>its. Inr (it # its)))"
  using assms by (simp split: prod.splits)

lemma no_thumbnail: "map_of kvs ''thumbnail'' = None \<Longrightarrow> img_tag env (thumbnail_of kvs) = ''<img src='' @ dq ''None'' @ ''>''"
  by (simp add: img_tag_def thumbnail_of_def)


text \<open>
  Against C2 as stated: an answer that has neither \<^verbatim>\<open>content\<close> nor \<^verbatim>\<open>excerpt\<close>, and an
  article without \<^verbatim>\<open>author\<close>, are of a recognised kind and lack only fields the claim
  treats as optional; normalising them raises \<^verbatim>\<open>KeyError\<close>.
\<close>

theorem normalization_raises_counterexample:
  "post2rss (demo_env ''p'' demo_pages)
     (JObj [(''type'', JStr ''answer''), (''id'', JInt 1),
            (''question'', JObj [(''id'', JInt 7), (''title'', JStr ''Why?'')]),
            (''created_time'', JInt 1500000000),
            (''author'', JObj [(''name'', JStr ''Ann'')]),
            (''thumbnail'', JStr ''http://pic/1.jpg'')])
     False JNull (Tuple []) = ([], Inl (KeyError ''excerpt''))
   \<and> post2rss (demo_env ''p'' demo_pages)
     (JObj [(''type'', JStr ''article''), (''id'', JInt 1), (''title'', JStr ''T''),
            (''created'', JInt 1500000000),
            (''excerpt'', JStr ''short''), (''content'', JStr ''long'')])
     False JNull (Tuple []) = ([], Inl (KeyError ''author''))"
  by (simp add: post2rss_def post2rss_dispatch_def post_content_def py_eq_str_def
      show_int_def show_nat.simps)

text \<open>
  C2, amended. An item of a recognised kind (answer, article, accepted question) is
  normalised to an entry, without raising, when every field its kind reads is present,
  the selected body field holds a \<^verbatim>\<open>str\<close>, the timestamp is a number and the HTML and
  date collaborators succeed. Two fields may be missing: \<^verbatim>\<open>content\<close> (the excerpt
  is then the body) and \<^verbatim>\<open>thumbnail\<close> (the substitute image tag then names
  \<^verbatim>\<open>None\<close>). An item of a recognised kind whose id or title is missing makes
  \<^verbatim>\<open>post2rss\<close> raise \<^verbatim>\<open>KeyError\<close>; it does not return nothing. The feed assembler,
  modelled from the spec, skips an item whose normalisation raised \<^verbatim>\<open>KeyError\<close> and goes
  on with the remaining items.
\<close>

theorem normalization_needs_its_fields:
  "(map_of kvs ''type'' = Some (JStr ''answer'')
      \<and> map_of kvs ''question'' = Some (JObj q)
      \<and> map_of q ''title'' = Some qtitle \<and> map_of q ''id'' = Some qid
      \<and> map_of kvs ''id'' = Some pid \<and> map_of kvs ''created_time'' = Some t_c
      \<and> map_of kvs ''author'' = Some (JObj a) \<and> map_of a ''name'' = Some nm
      \<and> map_of kvs (if digest \<or> map_of kvs ''content'' = None then ''excerpt'' else ''content'')
            = Some (JStr body)
      \<and> sanitize env pic (if body = [] then img_tag env (thumbnail_of kvs) else wrap_code body)
            = Inr html
      \<and> py_timestamp t_c = Inr ts \<and> utcfromtimestamp env ts = Inr d
    \<longrightarrow> post2rss env (JObj kvs) digest pic extra =
          ([], Inr (Some \<lparr>title = replace (answer_prefix @ py_str env qtitle) [CHR 0x08] [],
                           link = ''https://www.zhihu.com/question/'' @ py_str env qid
                                    @ ''/answer/'' @ py_str env pid,
                           guid = ''https://www.zhihu.com/question/'' @ py_str env qid
                                    @ ''/answer/'' @ py_str env pid,
                           description = replace html [CHR 0x08] [],
                           pubDate = d, author = nm\<rparr>)))
   \<and> (map_of kvs ''type'' = Some (JStr ''article'')
      \<and> map_of kvs ''title'' = Some ptitle
      \<and> map_of kvs ''id'' = Some pid \<and> map_of kvs ''created'' = Some t_c
      \<and> map_of kvs ''author'' = Some (JObj a) \<and> map_of a ''name'' = Some nm
      \<and> map_of kvs (if digest \<or> map_of kvs ''content'' = None then ''excerpt'' else ''content'')
            = Some (JStr body)
      \<and> sanitize env pic (if body = [] then img_tag env (thumbnail_of kvs) else wrap_code body)
            = Inr html
      \<and> py_timestamp t_c = Inr ts \<and> utcfromtimestamp env ts = Inr d
    \<longrightarrow> post2rss env (JObj kvs) digest pic extra =
          ([], Inr (Some \<lparr>title = replace (article_prefix @ py_str env ptitle) [CHR 0x08] [],
                           link = ''https://zhuanlan.zhihu.com/p/'' @ py_str env pid,
                           guid = ''https://zhuanlan.zhihu.com/p/'' @ py_str env pid,
                           description = replace html [CHR 0x08] [],
                           pubDate = d, author = nm\<rparr>)))
   \<and> (map_of kvs ''type'' = Some (JStr ''question'') \<and> in_extra_types ''question'' extra
      \<and> map_of kvs ''title'' = Some (JStr body)
      \<and> map_of kvs ''id'' = Some pid \<and> map_of kvs ''created'' = Some t_c
      \<and> sanitize env pic (if body = [] then img_tag env (thumbnail_of kvs) else wrap_code body)
            = Inr html
      \<and> py_timestamp t_c = Inr ts \<and> utcfromtimestamp env ts = Inr d
    \<longrightarrow> post2rss env (JObj kvs) digest pic extra =
          ([], Inr (Some \<lparr>title = replace (question_prefix @ body) [CHR 0x08] [],
                           link = ''https://www.zhihu.com/question/'' @ py_str env pid,
                           guid = ''https://www.zhihu.com/question/'' @ py_str env pid,
                           description = replace html [CHR 0x08] [],
                           pubDate = d, author = JNull\<rparr>)))
   \<and> (map_of kvs ''thumbnail'' = None
    \<longrightarrow> img_tag env (thumbnail_of kvs) = ''<img src='' @ dq ''None'' @ ''>'')
   \<and> (map_of kvs ''type'' = Some ty
      \<and> (ty = JStr ''article'' \<or> (ty = JStr ''question'' \<and> in_extra_types ''question'' extra))
      \<and> map_of kvs ''title'' = None
    \<longrightarrow> post2rss env (JObj kvs) digest pic extra = ([], Inl (KeyError ''title'')))
   \<and> (map_of kvs ''type'' = Some ty
      \<and> (ty = JStr ''article'' \<or> (ty = JStr ''question'' \<and> in_extra_types ''question'' extra))
      \<and> map_of kvs ''title'' = Some ptitle \<and> map_of kvs ''id'' = None
    \<longrightarrow> post2rss env (JObj kvs) digest pic extra = ([], Inl (KeyError ''id'')))
   \<and> (map_of kvs ''type'' = Some (JStr ''answer'')
      \<and> map_of kvs ''question'' = Some (JObj q) \<and> map_of q ''title'' = None
    \<longrightarrow> post2rss env (JObj kvs) digest pic extra = ([], Inl (KeyError ''title'')))
   \<and> (map_of kvs ''type'' = Some (JStr ''answer'')
      \<and> map_of kvs ''question'' = Some (JObj q) \<and> map_of q ''title'' = Some qtitle
      \<and> (map_of q ''id'' = None \<or> map_of kvs ''id'' = None)
    \<longrightarrow> post2rss env (JObj kvs) digest pic extra = ([], Inl (KeyError ''id'')))
   \<and> (transform x = (log, Inl (KeyError k))
    \<longrightarrow> data2rss_items transform (x # xs) =
          (log @ fst (data2rss_items transform xs), snd (data2rss_items transform xs)))"
proof (intro conjI impI; (elim conjE)?)
  assume ty: "map_of kvs ''type'' = Some (JStr ''answer'')"
    and f: "map_of kvs ''question'' = Some (JObj q)" "map_of q ''title'' = Some qtitle"
      "map_of q ''id'' = Some qid" "map_of kvs ''id'' = Some pid"
      "map_of kvs ''created_time'' = Some t_c"
      "map_of kvs ''author'' = Some (JObj a)" "map_of a ''name'' = Some nm"
    and b: "map_of kvs (if digest \<or> map_of kvs ''content'' = None then ''excerpt'' else ''content'')
            = Some (JStr body)"
    and r: "sanitize env pic (if body = [] then img_tag env (thumbnail_of kvs) else wrap_code body)
            = Inr html" "py_timestamp t_c = Inr ts" "utcfromtimestamp env ts = Inr d"
  have c: "post_content (JObj kvs) digest = Inr (JStr body)"
    by (rule body_field [OF ty _ b]) simp
  note e = post2rss_entry [OF answer_dispatch [OF ty f] c]
  show "post2rss env (JObj kvs) digest pic extra =
          ([], Inr (Some \<lparr>title = replace (answer_prefix @ py_str env qtitle) [CHR 0x08] [],
                           link = ''https://www.zhihu.com/question/'' @ py_str env qid
                                    @ ''/answer/'' @ py_str env pid,
                           guid = ''https://www.zhihu.com/question/'' @ py_str env qid
                                    @ ''/answer/'' @ py_str env pid,
                           description = replace html [CHR 0x08] [],
                           pubDate = d, author = nm\<rparr>))"
    by (simp only: e render_entry [OF r])
next
  assume ty: "map_of kvs ''type'' = Some (JStr ''article'')"
    and f: "map_of kvs ''title'' = Some ptitle" "map_of kvs ''id'' = Some pid"
      "map_of kvs ''created'' = Some t_c"
      "map_of kvs ''author'' = Some (JObj a)" "map_of a ''name'' = Some nm"
    and b: "map_of kvs (if digest \<or> map_of kvs ''content'' = None then ''excerpt'' else ''content'')
            = Some (JStr body)"
    and r: "sanitize env pic (if body = [] then img_tag env (thumbnail_of kvs) else wrap_code body)
            = Inr html" "py_timestamp t_c = Inr ts" "utcfromtimestamp env ts = Inr d"
  have c: "post_content (JObj kvs) digest = Inr (JStr body)"
    by (rule body_field [OF ty _ b]) simp
  note e = post2rss_entry [OF article_dispatch [OF ty f] c]
  show "post2rss env (JObj kvs) digest pic extra =
          ([], Inr (Some \<lparr>title = replace (article_prefix @ py_str env ptitle) [CHR 0x08] [],
                           link = ''https://zhuanlan.zhihu.com/p/'' @ py_str env pid,
                           guid = ''https://zhuanlan.zhihu.com/p/'' @ py_str env pid,
                           description = replace html [CHR 0x08] [],
                           pubDate = d, author = nm\<rparr>))"
    by (simp only: e render_entry [OF r])
next
  assume ty: "map_of kvs ''type'' = Some (JStr ''question'')"
    and ex: "in_extra_types ''question'' extra"
    and f: "map_of kvs ''title'' = Some (JStr body)" "map_of kvs ''id'' = Some pid"
      "map_of kvs ''created'' = Some t_c"
    and r: "sanitize env pic (if body = [] then img_tag env (thumbnail_of kvs) else wrap_code body)
            = Inr html" "py_timestamp t_c = Inr ts" "utcfromtimestamp env ts = Inr d"
  note e = post2rss_entry [OF question_dispatch [OF ty ex f] body_title [OF ty f(1)]]
  show "post2rss env (JObj kvs) digest pic extra =
          ([], Inr (Some \<lparr>title = replace (question_prefix @ body) [CHR 0x08] [],
                           link = ''https://www.zhihu.com/question/'' @ py_str env pid,
                           guid = ''https://www.zhihu.com/question/'' @ py_str env pid,
                           description = replace html [CHR 0x08] [],
                           pubDate = d, author = JNull\<rparr>))"
    by (simp only: e render_entry [OF r] py_str.simps)
next
  assume "map_of kvs ''thumbnail'' = None"
  then show "img_tag env (thumbnail_of kvs) = ''<img src='' @ dq ''None'' @ ''>''"
    by (rule no_thumbnail)
next
  assume "map_of kvs ''type'' = Some ty"
    "ty = JStr ''article'' \<or> (ty = JStr ''question'' \<and> in_extra_types ''question'' extra)"
    "map_of kvs ''title'' = None"
  then show "post2rss env (JObj kvs) digest pic extra = ([], Inl (KeyError ''title''))"
    by (rule missing_title)
next
  assume "map_of kvs ''type'' = Some ty"
    "ty = JStr ''article'' \<or> (ty = JStr ''question'' \<and> in_extra_types ''question'' extra)"
    "map_of kvs ''title'' = Some ptitle" "map_of kvs ''id'' = None"
  then show "post2rss env (JObj kvs) digest pic extra = ([], Inl (KeyError ''id''))"
    by (rule missing_id)
next
  assume "map_of kvs ''type'' = Some (JStr ''answer'')"
    "map_of kvs ''question'' = Some (JObj q)" "map_of q ''title'' = None"
  then show "post2rss env (JObj kvs) digest pic extra = ([], Inl (KeyError ''title''))"
    by (rule answer_missing_title)
next
  assume "map_of kvs ''type'' = Some (JStr ''answer'')"
    "map_of kvs ''question'' = Some (JObj q)" "map_of q ''title'' = Some qtitle"
    "map_of q ''id'' = None \<or> map_of kvs ''id'' = None"
  then show "post2rss env (JObj kvs) digest pic extra = ([], Inl (KeyError ''id''))"
    by (rule answer_missing_id)
next
  assume "transform x = (log, Inl (KeyError k))"
  then show "data2rss_items transform (x # xs) =
          (log @ fst (data2rss_items transform xs), snd (data2rss_items transform xs))"
    by (rule data2rss_items_skip)
qed

subsection \<open>The properties on the sample upstream\<close>

lemma demo_first:
  "activities (demo_env ''p'' demo_pages) ''u'' = Inr demo_page0"
  by (simp add: activities_def get_json_def demo_env_def demo_pages_def)

lemma demo_topic_first:
  "topic (demo_env ''p'' demo_pages) ''19551894'' (JStr ''hot'') = Inr demo_page0"
  by (simp add: topic_def get_json_def demo_env_def demo_pages_def)

lemma demo_get_json:
  "get_json (demo_env ''p'' demo_pages) 2 (JStr u) = Inr demo_page1"
  by (simp add: get_json_def demo_env_def demo_pages_def)

lemma demo_posts0:
  "activity_posts demo_page0 = Inr [demo_answer 1 ''one'', demo_answer 3 ''three'']"
  by (simp add: activity_posts_def demo_page0_def demo_page_def demo_activity_def
      py_in_strs_def py_eq_str_def ACCEPT_VERBS_def)

lemma demo_posts1:
  "activity_posts demo_page1 = Inr [demo_answer 4 ''four'']"
  by (simp add: activity_posts_def demo_page1_def demo_page_def demo_activity_def
      py_in_strs_def py_eq_str_def ACCEPT_VERBS_def)

lemma demo_topic_posts0:
  "topic_posts demo_page0 =
     Inr [demo_answer 1 ''one'', demo_answer 2 ''two'', demo_answer 3 ''three'']"
  by (simp add: topic_posts_def demo_page0_def demo_page_def demo_activity_def)

lemma demo_topic_posts1:
  "topic_posts demo_page1 = Inr [demo_answer 4 ''four'']"
  by (simp add: topic_posts_def demo_page1_def demo_page_def demo_activity_def)

lemma demo_paging0:
  "subscript demo_page0 ''paging'' =
     Inr (JObj [(''is_end'', JBool False), (''next'', JStr ''http://next/1'')])"
  by (simp add: demo_page0_def demo_page_def)

lemma demo_paging1:
  "subscript demo_page1 ''paging'' = Inr (JObj [(''is_end'', JBool True), (''next'', JStr [])])"
  by (simp add: demo_page1_def demo_page_def)

lemma demo_walk:
  "activities_walk (demo_env ''p'' demo_pages) ''u'' =
     Inr ([demo_answer 1 ''one'', demo_answer 3 ''three'', demo_answer 4 ''four''], 1, demo_page1)"
  by (simp add: activities_walk_def demo_first demo_posts0 demo_posts1 demo_get_json
      demo_paging0 demo_paging1
      activities_loop.simps [of _ _ 0] activities_loop.simps [of _ _ "Suc 0"])

lemma demo_topic_walk:
  "topic_walk (demo_env ''p'' demo_pages) ''19551894'' (JStr ''hot'') =
     Inr ([demo_answer 1 ''one'', demo_answer 2 ''two'', demo_answer 3 ''three'',
           demo_answer 4 ''four''], 1, demo_page1)"
  by (simp add: topic_walk_def demo_topic_first demo_topic_posts0 demo_topic_posts1 demo_get_json
      demo_paging0 demo_paging1 startswith_def
      topic_loop.simps [of _ _ 0] topic_loop.simps [of _ _ "Suc 0"])

lemma demo_get_json_any:
  "0 < k \<Longrightarrow>
   get_json (demo_env ''p'' demo_pages) k u = Inr (if k = 1 then demo_page0 else demo_page1)"
  by (cases "k = 1") (simp_all add: get_json_def demo_env_def demo_pages_def min_def)

lemma demo_cursor_ok: "cursor_ok demo_page0" "cursor_ok demo_page1"
  by (simp_all add: cursor_ok_def demo_paging0 demo_paging1)

lemma demo_topic_cursor_ok: "topic_cursor_ok demo_page0" "topic_cursor_ok demo_page1"
  by (simp_all add: topic_cursor_ok_def demo_paging0 demo_paging1)

lemma demo_upstream:
  "\<forall>k u. 0 < k \<longrightarrow>
     (\<exists>d ps. get_json (demo_env ''p'' demo_pages) k u = Inr d \<and> cursor_ok d
        \<and> activity_posts d = Inr ps)"
  by (simp add: demo_get_json_any demo_cursor_ok demo_posts0 demo_posts1)

lemma demo_topic_upstream:
  "\<forall>k u. 0 < k \<longrightarrow>
     (\<exists>d ps. get_json (demo_env ''p'' demo_pages) k u = Inr d \<and> topic_cursor_ok d
        \<and> topic_posts d = Inr ps)"
  by (simp add: demo_get_json_any demo_topic_cursor_ok demo_topic_posts0 demo_topic_posts1)

theorem aggregation_stops_witness:
  "activities_walk (demo_env ''p'' demo_pages) ''u'' =
     Inr ([demo_answer 1 ''one'', demo_answer 3 ''three'', demo_answer 4 ''four''], 1, demo_page1)
   \<and> topic_walk (demo_env ''p'' demo_pages) ''19551894'' (JStr ''hot'') =
     Inr ([demo_answer 1 ''one'', demo_answer 2 ''two'', demo_answer 3 ''three'',
           demo_answer 4 ''four''], 1, demo_page1)
   \<and> reports_end demo_page1
   \<and> (\<exists>first rest ps. activities (demo_env ''p'' demo_pages) ''u'' = Inr first
         \<and> activities_pages (demo_env ''p'' demo_pages) 2 first 1 = Inr rest \<and> length rest = 1
         \<and> demo_page1 = last (first # rest)
         \<and> activity_posts first = Inr ps
         \<and> prefix ps [demo_answer 1 ''one'', demo_answer 3 ''three'', demo_answer 4 ''four''])
   \<and> (\<exists>first rest ps. topic (demo_env ''p'' demo_pages) ''19551894'' (JStr ''hot'') = Inr first
         \<and> topic_pages (demo_env ''p'' demo_pages) 2 first 1 = Inr rest \<and> length rest = 1
         \<and> demo_page1 = last (first # rest)
         \<and> topic_posts first = Inr ps
         \<and> prefix ps [demo_answer 1 ''one'', demo_answer 2 ''two'', demo_answer 3 ''three'',
                       demo_answer 4 ''four''])
   \<and> (\<exists>r. activities_walk (demo_env ''p'' demo_pages) ''u'' = Inr r)
   \<and> (\<exists>r. topic_walk (demo_env ''p'' demo_pages) ''19551894'' (JStr ''hot'') = Inr r)"
proof -
  note u = aggregation_stops [THEN conjunct1, rule_format, OF demo_walk]
  note t = aggregation_stops [THEN conjunct2, THEN conjunct1, rule_format, OF demo_topic_walk]
  note ru = aggregation_stops [where env = "demo_env ''p'' demo_pages" and name = "''u''",
      THEN conjunct2, THEN conjunct2, THEN conjunct1, THEN mp, OF demo_upstream]
  note rt = aggregation_stops [where env = "demo_env ''p'' demo_pages" and tid = "''19551894''"
        and sortkey = "JStr ''hot''",
      THEN conjunct2, THEN conjunct2, THEN conjunct2, THEN mp, OF demo_topic_upstream]
  from u have "reports_end demo_page1" by simp
  with u t ru rt demo_walk demo_topic_walk show ?thesis
    by (intro conjI) (simp_all only: simp_thms)
qed

theorem posts_in_upstream_order_witness:
  "(\<exists>first rest. activities (demo_env ''p'' demo_pages) ''u'' = Inr first
       \<and> activities_pages (demo_env ''p'' demo_pages) 2 first 1 = Inr rest
       \<and> collect activity_posts (first # rest) =
           Inr [demo_answer 1 ''one'', demo_answer 3 ''three'', demo_answer 4 ''four''])
   \<and> (\<exists>first rest. topic (demo_env ''p'' demo_pages) ''19551894'' (JStr ''hot'') = Inr first
       \<and> topic_pages (demo_env ''p'' demo_pages) 2 first 1 = Inr rest
       \<and> collect topic_posts (first # rest) =
           Inr [demo_answer 1 ''one'', demo_answer 2 ''two'', demo_answer 3 ''three'',
                demo_answer 4 ''four''])
   \<and> (\<exists>xs. ebind (subscript demo_page0 ''data'') py_iter = Inr xs
       \<and> [demo_answer 1 ''one'', demo_answer 3 ''three''] = map target_of (filter accepted xs))
   \<and> (\<exists>xs. ebind (subscript demo_page0 ''data'') py_iter = Inr xs
       \<and> [demo_answer 1 ''one'', demo_answer 2 ''two'', demo_answer 3 ''three''] = map target_of xs)"
proof -
  note a = posts_in_upstream_order [THEN conjunct1, rule_format, OF demo_walk]
  note b = posts_in_upstream_order [THEN conjunct2, THEN conjunct1, rule_format, OF demo_topic_walk]
  note c = posts_in_upstream_order [THEN conjunct2, THEN conjunct2, THEN conjunct1, rule_format,
      OF demo_posts0]
  note d = posts_in_upstream_order [THEN conjunct2, THEN conjunct2, THEN conjunct2, rule_format,
      OF demo_topic_posts0]
  from a b c d show ?thesis by (intro conjI)
qed

lemma demo_utc: "utcfromtimestamp (demo_env p pages) t = Inr t"
  by (simp add: demo_env_def)

theorem normalization_needs_its_fields_witness:
  "post2rss (demo_env ''p'' demo_pages) (demo_answer 5 ''<b>hi</b>'') False JNull (Tuple []) =
     ([], Inr (Some \<lparr>title = answer_prefix @ ''Why?'',
                      link = ''https://www.zhihu.com/question/7/answer/5'',
                      guid = ''https://www.zhihu.com/question/7/answer/5'',
                      description = ''<b>hi</b>'',
                      pubDate = 1500000000, author = JStr ''Ann''\<rparr>))
   \<and> post2rss (demo_env ''p'' demo_pages)
       (JObj [(''type'', JStr ''article''), (''id'', JInt 3)]) False JNull (Tuple [])
       = ([], Inl (KeyError ''title''))
   \<and> post2rss (demo_env ''p'' demo_pages)
       (JObj [(''type'', JStr ''answer''),
              (''question'', JObj [(''id'', JInt 7), (''title'', JStr ''Why?'')])])
       False JNull (Tuple [])
       = ([], Inl (KeyError ''id''))
   \<and> data2rss_items (\<lambda>post. post2rss (demo_env ''p'' demo_pages) post False JNull (Tuple []))
       [JObj [(''type'', JStr ''article''), (''id'', JInt 3)], demo_answer 5 ''<b>hi</b>'']
       = ([], Inr [\<lparr>title = answer_prefix @ ''Why?'',
                     link = ''https://www.zhihu.com/question/7/answer/5'',
                     guid = ''https://www.zhihu.com/question/7/answer/5'',
                     description = ''<b>hi</b>'',
                     pubDate = 1500000000, author = JStr ''Ann''\<rparr>])"
proof -
  let ?D = "demo_env ''p'' demo_pages"
  let ?bad = "[(''type'', JStr ''article''), (''id'', JInt 3)]"
  let ?noid = "[(''type'', JStr ''answer''),
                (''question'', JObj [(''id'', JInt 7), (''title'', JStr ''Why?'')])]"
  let ?f = "\<lambda>post. post2rss ?D post False JNull (Tuple [])"
  have good: "post2rss ?D (demo_answer 5 ''<b>hi</b>'') False JNull (Tuple []) =
     ([], Inr (Some \<lparr>title = answer_prefix @ ''Why?'',
                      link = ''https://www.zhihu.com/question/7/answer/5'',
                      guid = ''https://www.zhihu.com/question/7/answer/5'',
                      description = ''<b>hi</b>'',
                      pubDate = 1500000000, author = JStr ''Ann''\<rparr>))"
    using normalization_needs_its_fields [THEN conjunct1, rule_format,
        where kvs = "demo_fields 5 ''<b>hi</b>''" and q = "[(''id'', JInt 7), (''title'', JStr ''Why?'')]"
          and qtitle = "JStr ''Why?''" and qid = "JInt 7" and pid = "JInt 5"
          and t_c = "JInt 1500000000" and a = "[(''name'', JStr ''Ann'')]" and nm = "JStr ''Ann''"
          and digest = False and body = "''<b>hi</b>''" and env = ?D and pic = JNull
          and html = "''<b>hi</b>''" and ts = 1500000000 and d = 1500000000 and extra = "Tuple []"]
    by (simp add: demo_answer_def demo_fields_def demo_sanitize wrap_code_def demo_title
        demo_utc show_int_def show_nat.simps)
  have bad: "post2rss ?D (JObj ?bad) False JNull (Tuple []) = ([], Inl (KeyError ''title''))"
    using normalization_needs_its_fields [THEN conjunct2, THEN conjunct2, THEN conjunct2,
        THEN conjunct2, THEN conjunct1, rule_format,
        where kvs = ?bad and ty = "JStr ''article''" and env = ?D and digest = False
          and pic = JNull and extra = "Tuple []"]
    by simp
  have noid: "post2rss ?D (JObj ?noid) False JNull (Tuple []) = ([], Inl (KeyError ''id''))"
    using normalization_needs_its_fields [THEN conjunct2, THEN conjunct2, THEN conjunct2,
        THEN conjunct2, THEN conjunct2, THEN conjunct2, THEN conjunct2, THEN conjunct1, rule_format,
        where kvs = ?noid and q = "[(''id'', JInt 7), (''title'', JStr ''Why?'')]"
          and qtitle = "JStr ''Why?''" and env = ?D and digest = False
          and pic = JNull and extra = "Tuple []"]
    by simp
  have skip: "data2rss_items ?f [JObj ?bad, demo_answer 5 ''<b>hi</b>''] =
      ([] @ fst (data2rss_items ?f [demo_answer 5 ''<b>hi</b>'']),
       snd (data2rss_items ?f [demo_answer 5 ''<b>hi</b>'']))"
    using normalization_needs_its_fields [THEN conjunct2, THEN conjunct2, THEN conjunct2,
        THEN conjunct2, THEN conjunct2, THEN conjunct2, THEN conjunct2, THEN conjunct2, rule_format,
        where transform = ?f and x = "JObj ?bad" and log = "[]" and k = "''title''"
          and xs = "[demo_answer 5 ''<b>hi</b>'']"]
      bad
    by simp
  have rest: "data2rss_items ?f [demo_answer 5 ''<b>hi</b>''] =
      ([], Inr [\<lparr>title = answer_prefix @ ''Why?'',
                     link = ''https://www.zhihu.com/question/7/answer/5'',
                     guid = ''https://www.zhihu.com/question/7/answer/5'',
                     description = ''<b>hi</b>'',
                     pubDate = 1500000000, author = JStr ''Ann''\<rparr>])"
    by (simp add: good)
  from good bad noid skip rest show ?thesis by (intro conjI) simp_all
qed

end
